theory Spec2Isabelle
  imports Main
begin

section \<open>The native bridge module (class LeapSDKModule)\<close>

text \<open>
  The Kotlin class \<^verbatim>\<open>LeapSDKModule\<close> keeps three nullable fields
  (\<^verbatim>\<open>modelRunner\<close>, \<^verbatim>\<open>currentConversation\<close>, \<^verbatim>\<open>generationJob\<close>) and a coroutine scope.
  The vendor SDK is outside the repository: what it does at each call (the exception it
  throws, the responses its flow emits) is an argument of the model, never a choice of it.
  A model runner is identified by the path it was loaded from, a conversation by the
  runner that created it.
\<close>

type_synonym ModelRunner = string

datatype Conversation = Conversation ModelRunner

text \<open>
  \<^verbatim>\<open>MessageResponse\<close>: the module distinguishes \<^verbatim>\<open>Chunk\<close> (it reads \<^verbatim>\<open>response.text\<close>),
  \<^verbatim>\<open>ReasoningChunk\<close> (it reads only \<^verbatim>\<open>response.toString()\<close>, which is the string the
  constructor carries here) and every other variant.
\<close>

datatype MessageResponse = Chunk string | ReasoningChunk string | OtherResponse

text \<open>
  What \<^verbatim>\<open>sendEvent(eventName, params)\<close> emits. The three shapes are the interfaces
  \<^verbatim>\<open>ChunkEvent {text, type}\<close>, \<^verbatim>\<open>CompleteEvent {text}\<close> and \<^verbatim>\<open>ErrorEvent {error}\<close>; the event
  name goes with the shape.
\<close>

datatype event = ChunkEvent string string | CompleteEvent string | ErrorEvent string

fun eventName :: "event \<Rightarrow> string" where
  "eventName (ChunkEvent t ty) = ''onChunk''"
| "eventName (CompleteEvent t) = ''onComplete''"
| "eventName (ErrorEvent e) = ''onError''"

text \<open>Values a promise is resolved with, and the two ways a promise is settled.\<close>

datatype resolved = JTrue | JText string | JMessages "string list"

datatype settlement = Resolve resolved | Reject string string

text \<open>
  Everything the module sends over the bridge: an emitter event, or a call of
  \<^verbatim>\<open>promise.resolve\<close> / \<^verbatim>\<open>promise.reject\<close> on the promise of one method call (promises are
  numbered by the caller).
\<close>

datatype bridge_call = SendEvent event | Settle nat settlement

datatype exn = LeapModelLoadingException string | Exception string

text \<open>
  A coroutine launched by \<^verbatim>\<open>generateResponse\<close>. \<^verbatim>\<open>upstream\<close> is what the flow
  \<^verbatim>\<open>conversation.generateResponse(input)\<close> has still to emit and \<^verbatim>\<open>upstream_fault\<close> how it
  ends (\<open>None\<close>: it completes; \<open>Some msg\<close>: it throws an exception with that message).
  A launched coroutine is active at once but its body runs only when dispatched
  (\<^verbatim>\<open>started\<close>); \<^verbatim>\<open>cancel()\<close> on a coroutine that never started finishes it without running
  the body, on a running one it makes the suspended flow throw a cancellation exception.
\<close>

datatype job_status = Active | Cancelling | Cancelled | Completed

record Job =
  promise :: nat
  input :: string
  upstream :: "MessageResponse list"
  upstream_fault :: "string option"
  responseBuilder :: string
  started :: bool
  status :: job_status

record LeapSDKModule =
  modelRunner :: "ModelRunner option"
  currentConversation :: "Conversation option"
  generationJob :: "nat option"
  jobs :: "Job list"

text \<open>\<^verbatim>\<open>generationJob\<close> is a reference into \<^verbatim>\<open>jobs\<close>, the coroutines of \<^verbatim>\<open>scope\<close> in launch order.\<close>

definition new_module :: LeapSDKModule where
  "new_module = \<lparr>modelRunner = None, currentConversation = None, generationJob = None, jobs = []\<rparr>"

subsection \<open>loadModel, createConversation\<close>

definition native_loadModel :: "string \<Rightarrow> exn option \<Rightarrow> LeapSDKModule \<Rightarrow> settlement \<times> LeapSDKModule" where
  "native_loadModel modelPath thrown m =
     (case thrown of
        None \<Rightarrow> (Resolve JTrue, m\<lparr>modelRunner := Some modelPath\<rparr>)
      | Some (LeapModelLoadingException msg) \<Rightarrow>
          (Reject ''MODEL_LOAD_ERROR'' (''Failed to load model: '' @ msg), m)
      | Some (Exception msg) \<Rightarrow>
          (Reject ''UNKNOWN_ERROR'' (''Unexpected error loading model: '' @ msg), m))"

text \<open>\<open>thrown\<close> is the exception of \<^verbatim>\<open>runner.createConversation()\<close>, if it throws.\<close>

definition native_createConversation :: "string option \<Rightarrow> LeapSDKModule \<Rightarrow> settlement \<times> LeapSDKModule" where
  "native_createConversation thrown m =
     (case modelRunner m of
        None \<Rightarrow> (Reject ''NO_MODEL'' ''Model not loaded. Call loadModel first.'', m)
      | Some runner \<Rightarrow>
          (case thrown of
             None \<Rightarrow> (Resolve JTrue, m\<lparr>currentConversation := Some (Conversation runner)\<rparr>)
           | Some msg \<Rightarrow> (Reject ''CONVERSATION_ERROR'' (''Failed to create conversation: '' @ msg), m)))"

subsection \<open>generateResponse: the flow pipeline onEach / onCompletion / catch / collect\<close>

definition onEach_action :: "MessageResponse \<Rightarrow> string \<Rightarrow> bridge_call list \<times> string" where
  "onEach_action response rb =
     (case response of
        Chunk t \<Rightarrow> ([SendEvent (ChunkEvent t ''chunk'')], rb @ t)
      | ReasoningChunk s \<Rightarrow> ([SendEvent (ChunkEvent s ''reasoning'')], rb)
      | OtherResponse \<Rightarrow> ([], rb))"

text \<open>\<open>cause\<close> is the message of the \<^verbatim>\<open>cause\<close> throwable, \<open>None\<close> for \<^verbatim>\<open>null\<close>.\<close>

definition onCompletion_action :: "nat \<Rightarrow> string option \<Rightarrow> string \<Rightarrow> bridge_call list" where
  "onCompletion_action p cause rb =
     (case cause of
        None \<Rightarrow>
          (let fullResponse = rb
           in [SendEvent (CompleteEvent fullResponse), Settle p (Resolve (JText fullResponse))])
      | Some msg \<Rightarrow>
          (let errorMsg = ''Error in generation: '' @ msg
           in [SendEvent (ErrorEvent errorMsg), Settle p (Reject ''GENERATION_ERROR'' errorMsg)]))"

definition catch_action :: "nat \<Rightarrow> string \<Rightarrow> bridge_call list" where
  "catch_action p msg =
     (let errorMsg = ''Error in generation: '' @ msg
      in [SendEvent (ErrorEvent errorMsg), Settle p (Reject ''GENERATION_ERROR'' errorMsg)])"

text \<open>
  The message of the cancellation exception that \<^verbatim>\<open>Job.cancel()\<close> raises in a launched
  coroutine (the wording of kotlinx.coroutines).
\<close>

definition cancellation_message :: string where
  "cancellation_message = ''StandaloneCoroutine was cancelled''"

text \<open>
  One dispatch of the coroutine. \<^verbatim>\<open>onCompletion\<close> runs its action and passes the exception
  on downstream; \<^verbatim>\<open>catch\<close> then runs its action for an exception of the upstream flow, and
  lets a cancellation through.
\<close>

definition job_step :: "Job \<Rightarrow> bridge_call list \<times> Job" where
  "job_step j =
     (case status j of
        Active \<Rightarrow>
          (case upstream j of
             response # rest \<Rightarrow>
               (let (out, rb) = onEach_action response (responseBuilder j)
                in (out, j\<lparr>upstream := rest, responseBuilder := rb, started := True\<rparr>))
           | [] \<Rightarrow>
               (case upstream_fault j of
                  None \<Rightarrow>
                    (onCompletion_action (promise j) None (responseBuilder j),
                     j\<lparr>started := True, status := Completed\<rparr>)
                | Some msg \<Rightarrow>
                    (onCompletion_action (promise j) (Some msg) (responseBuilder j)
                       @ catch_action (promise j) msg,
                     j\<lparr>started := True, status := Completed\<rparr>)))
      | Cancelling \<Rightarrow>
          (onCompletion_action (promise j) (Some cancellation_message) (responseBuilder j),
           j\<lparr>status := Cancelled\<rparr>)
      | Cancelled \<Rightarrow> ([], j)
      | Completed \<Rightarrow> ([], j))"

fun run_job :: "nat \<Rightarrow> Job \<Rightarrow> bridge_call list \<times> Job" where
  "run_job 0 j = ([], j)"
| "run_job (Suc n) j =
     (let (out, j') = job_step j; (outs, j'') = run_job n j' in (out @ outs, j''))"

text \<open>The bridge calls of a whole uncancelled collection, in closed form.\<close>

fun collect :: "nat \<Rightarrow> MessageResponse list \<Rightarrow> string option \<Rightarrow> string \<Rightarrow> bridge_call list" where
  "collect p [] fault rb =
     (case fault of
        None \<Rightarrow> onCompletion_action p None rb
      | Some msg \<Rightarrow> onCompletion_action p (Some msg) rb @ catch_action p msg)"
| "collect p (response # rest) fault rb =
     (let (out, rb') = onEach_action response rb in out @ collect p rest fault rb')"

definition cancel_job :: "Job \<Rightarrow> Job" where
  "cancel_job j =
     (case status j of
        Active \<Rightarrow> (if started j then j\<lparr>status := Cancelling\<rparr> else j\<lparr>status := Cancelled\<rparr>)
      | Cancelling \<Rightarrow> j
      | Cancelled \<Rightarrow> j
      | Completed \<Rightarrow> j)"

text \<open>\<^verbatim>\<open>generationJob?.cancel()\<close>\<close>

definition cancel_generationJob :: "LeapSDKModule \<Rightarrow> Job list" where
  "cancel_generationJob m =
     (case generationJob m of
        None \<Rightarrow> jobs m
      | Some i \<Rightarrow> (if i < length (jobs m) then (jobs m)[i := cancel_job (jobs m ! i)] else jobs m))"

definition launch :: "nat \<Rightarrow> string \<Rightarrow> MessageResponse list \<Rightarrow> string option \<Rightarrow> Job" where
  "launch p inp rs fault =
     \<lparr>promise = p, input = inp, upstream = rs, upstream_fault = fault,
      responseBuilder = [], started = False, status = Active\<rparr>"

text \<open>
  \<open>rs\<close> and \<open>fault\<close> say what the SDK's flow for this input emits and how it ends. The
  method itself settles the promise only when there is no conversation.
\<close>

definition native_generateResponse ::
  "string \<Rightarrow> MessageResponse list \<Rightarrow> string option \<Rightarrow> nat \<Rightarrow> LeapSDKModule \<Rightarrow> bridge_call list \<times> LeapSDKModule" where
  "native_generateResponse inp rs fault p m =
     (case currentConversation m of
        None \<Rightarrow>
          ([Settle p (Reject ''NO_CONVERSATION'' ''No conversation created. Call createConversation first.'')], m)
      | Some conversation \<Rightarrow>
          (let cancelled = cancel_generationJob m
           in ([], m\<lparr>generationJob := Some (length cancelled),
                     jobs := cancelled @ [launch p inp rs fault]\<rparr>)))"

subsection \<open>cancelGeneration, getHistory, cleanup\<close>

text \<open>
  In \<^verbatim>\<open>cancelGeneration\<close> and \<^verbatim>\<open>cleanup\<close> the job is cancelled and the fields are assigned
  before \<^verbatim>\<open>promise.resolve(true)\<close>, the one call of the \<^verbatim>\<open>try\<close> block that can throw;
  \<open>thrown\<close> is its exception, if it throws, and the \<^verbatim>\<open>catch\<close> block then rejects the promise.
\<close>

definition native_cancelGeneration :: "string option \<Rightarrow> LeapSDKModule \<Rightarrow> settlement \<times> LeapSDKModule" where
  "native_cancelGeneration thrown m =
     (let m' = m\<lparr>jobs := cancel_generationJob m, generationJob := None\<rparr>
      in case thrown of
           None \<Rightarrow> (Resolve JTrue, m')
         | Some msg \<Rightarrow> (Reject ''CANCEL_ERROR'' (''Failed to cancel generation: '' @ msg), m'))"

text \<open>\<open>thrown\<close>: the exception of reading \<^verbatim>\<open>conversation.history\<close>, if it throws.\<close>

definition native_getHistory :: "string option \<Rightarrow> LeapSDKModule \<Rightarrow> settlement" where
  "native_getHistory thrown m =
     (case currentConversation m of
        None \<Rightarrow> Resolve (JMessages [])
      | Some conversation \<Rightarrow>
          (case thrown of
             None \<Rightarrow> (let messagesArray = [] in Resolve (JMessages messagesArray))
           | Some msg \<Rightarrow> Reject ''HISTORY_ERROR'' (''Failed to get history: '' @ msg)))"

definition native_cleanup :: "string option \<Rightarrow> LeapSDKModule \<Rightarrow> settlement \<times> LeapSDKModule" where
  "native_cleanup thrown m =
     (let m' = m\<lparr>jobs := cancel_generationJob m, generationJob := None,
                  currentConversation := None, modelRunner := None\<rparr>
      in case thrown of
           None \<Rightarrow> (Resolve JTrue, m')
         | Some msg \<Rightarrow> (Reject ''CLEANUP_ERROR'' (''Failed to cleanup: '' @ msg), m'))"

text \<open>The module as a machine: a method call from JavaScript, or one dispatch of a coroutine.\<close>

datatype native_op =
    LoadModel string "exn option"
  | CreateConversation "string option"
  | GenerateResponse string "MessageResponse list" "string option" nat
  | CancelGeneration "string option"
  | Cleanup "string option"
  | Dispatch nat

fun exec :: "native_op \<Rightarrow> LeapSDKModule \<Rightarrow> bridge_call list \<times> LeapSDKModule" where
  "exec (LoadModel modelPath thrown) m = ([], snd (native_loadModel modelPath thrown m))"
| "exec (CreateConversation thrown) m = ([], snd (native_createConversation thrown m))"
| "exec (GenerateResponse inp rs fault p) m = native_generateResponse inp rs fault p m"
| "exec (CancelGeneration thrown) m = ([], snd (native_cancelGeneration thrown m))"
| "exec (Cleanup thrown) m = ([], snd (native_cleanup thrown m))"
| "exec (Dispatch i) m =
     (if i < length (jobs m)
      then (let (out, j') = job_step (jobs m ! i) in (out, m\<lparr>jobs := (jobs m)[i := j']\<rparr>))
      else ([], m))"

fun execs :: "native_op list \<Rightarrow> LeapSDKModule \<Rightarrow> LeapSDKModule" where
  "execs [] m = m"
| "execs (op # ops) m = execs ops (snd (exec op m))"

section \<open>The chat screen (chat.tsx): messages and the callbacks of handleSend\<close>

text \<open>
  A message id is the decimal rendering of a number (\<^verbatim>\<open>Date.now().toString()\<close>, or the
  literal \<^verbatim>\<open>'1'\<close> of the welcome message); rendering is injective, so the model keeps the
  number. Timestamps are clock readings.
\<close>

datatype role = user | assistant

record Message =
  id_msg :: nat
  text_msg :: string
  role :: role
  timestamp :: nat

record ChatScreen =
  messages :: "Message list"
  inputText :: string
  isLoading :: bool
  isInitialized_chat :: bool
  isInitializing :: bool
  currentResponseId :: "nat option"

text \<open>\<^verbatim>\<open>String.prototype.trim\<close>, on the white space of the ASCII range.\<close>

definition is_space :: "char \<Rightarrow> bool" where
  "is_space c = (c \<in> set [CHR '' '', CHR 0x09, CHR 0x0A, CHR 0x0B, CHR 0x0C, CHR 0x0D])"

definition trim :: "string \<Rightarrow> string" where
  "trim s = rev (dropWhile is_space (rev (dropWhile is_space s)))"

text \<open>
  The three closures that \<^verbatim>\<open>handleSend\<close> passes to \<^verbatim>\<open>sendMessage\<close>; each captures the
  \<^verbatim>\<open>responseId\<close> of its turn.
\<close>

datatype callback = handleSend_onChunk nat | handleSend_onComplete nat | handleSend_onError nat

text \<open>\<^verbatim>\<open>setMessages((prev) => prev.map((msg) => msg.id === responseId ? {...msg, text: f} : msg))\<close>\<close>

definition setMessages_map :: "nat \<Rightarrow> (Message \<Rightarrow> string) \<Rightarrow> ChatScreen \<Rightarrow> ChatScreen" where
  "setMessages_map responseId f c =
     c\<lparr>messages := map (\<lambda>msg. if id_msg msg = responseId then msg\<lparr>text_msg := f msg\<rparr> else msg) (messages c)\<rparr>"

text \<open>
  A listener is called only with events of the name it was registered for, so only the
  first three equations are ever used.
\<close>

fun invoke :: "callback \<Rightarrow> event \<Rightarrow> ChatScreen \<Rightarrow> ChatScreen" where
  "invoke (handleSend_onChunk responseId) (ChunkEvent t ty) c =
     setMessages_map responseId (\<lambda>msg. text_msg msg @ t) c"
| "invoke (handleSend_onComplete responseId) (CompleteEvent t) c =
     setMessages_map responseId (\<lambda>msg. t) c"
| "invoke (handleSend_onError responseId) (ErrorEvent e) c =
     setMessages_map responseId (\<lambda>msg. ''Error: '' @ e) c"
| "invoke cb ev c = c"

datatype js_error = Error string

text \<open>\<^verbatim>\<open>error?.message || fallback\<close>: the empty string is falsy.\<close>

definition message_or :: "js_error \<Rightarrow> string \<Rightarrow> string" where
  "message_or error fallback = (case error of Error msg \<Rightarrow> if msg = [] then fallback else msg)"

definition handleSend_catch :: "nat \<Rightarrow> js_error \<Rightarrow> ChatScreen \<Rightarrow> ChatScreen" where
  "handleSend_catch responseId error c =
     (let errorMessage = message_or error ''Unknown error occurred''
      in setMessages_map responseId (\<lambda>msg. ''Sorry, I encountered an error: '' @ errorMessage) c)"

definition handleSend_finally :: "ChatScreen \<Rightarrow> ChatScreen" where
  "handleSend_finally c = c\<lparr>isLoading := False, currentResponseId := None\<rparr>"

definition new_chat :: "nat \<Rightarrow> ChatScreen" where
  "new_chat now =
     \<lparr>messages = [\<lparr>id_msg = 1, text_msg = ''Hello! I'm your AI assistant. How can I help you today?'',
                    role = assistant, timestamp = now\<rparr>],
      inputText = [], isLoading = False, isInitialized_chat = False, isInitializing = False,
      currentResponseId = None\<rparr>"

section \<open>The wrapper (LeapSDK.ts), the service (leapLiquidAI.ts) and the application state\<close>

record LeapSDKWrapper =
  subscriptions :: "(string \<times> callback) list"

record LeapLiquidAIService =
  isInitialized :: bool
  modelPath :: "string option"
  conversationCreated :: bool

text \<open>
  The whole application: the native module, the two JavaScript singletons, the screen, the
  counter from which the bridge numbers its promises, and the \<^verbatim>\<open>generateResponse\<close> promises
  an unfinished \<^verbatim>\<open>handleSend\<close> is awaiting, each with the \<^verbatim>\<open>responseId\<close> of that turn.
\<close>

record App =
  native :: LeapSDKModule
  LeapSDK :: LeapSDKWrapper
  leapLiquidAI :: LeapLiquidAIService
  chat :: ChatScreen
  promises :: nat
  awaited :: "(nat \<times> nat) list"

definition new_app :: "nat \<Rightarrow> App" where
  "new_app now =
     \<lparr>native = new_module,
      LeapSDK = \<lparr>subscriptions = []\<rparr>,
      leapLiquidAI = \<lparr>isInitialized = False, modelPath = None, conversationCreated = False\<rparr>,
      chat = new_chat now,
      promises = 0,
      awaited = []\<rparr>"

definition removeAllListeners :: "App \<Rightarrow> App" where
  "removeAllListeners app = app\<lparr>LeapSDK := (LeapSDK app)\<lparr>subscriptions := []\<rparr>\<rparr>"

text \<open>A rejected bridge promise is a JavaScript error with the message of the rejection.\<close>

definition awaited_result :: "settlement \<Rightarrow> js_error + resolved" where
  "awaited_result r = (case r of Resolve v \<Rightarrow> Inr v | Reject code msg \<Rightarrow> Inl (Error msg))"

subsection \<open>Lifecycle: initialize, createConversation, getHistory, cleanup, cancelGeneration\<close>

definition LeapSDK_loadModel :: "string \<Rightarrow> exn option \<Rightarrow> App \<Rightarrow> (js_error + resolved) \<times> App" where
  "LeapSDK_loadModel path thrown app =
     (let (r, n) = native_loadModel path thrown (native app) in (awaited_result r, app\<lparr>native := n\<rparr>))"

definition leapLiquidAI_initialize :: "string \<Rightarrow> exn option \<Rightarrow> App \<Rightarrow> (js_error + unit) \<times> App" where
  "leapLiquidAI_initialize path thrown app =
     (if isInitialized (leapLiquidAI app) then (Inr (), app)
      else
        (let app1 = app\<lparr>leapLiquidAI := (leapLiquidAI app)\<lparr>modelPath := Some path\<rparr>\<rparr>;
             (r, app2) = LeapSDK_loadModel path thrown app1
         in case r of
              Inr v \<Rightarrow> (Inr (), app2\<lparr>leapLiquidAI := (leapLiquidAI app2)\<lparr>isInitialized := True\<rparr>\<rparr>)
            | Inl error \<Rightarrow> (Inl error, app2\<lparr>leapLiquidAI := (leapLiquidAI app2)\<lparr>isInitialized := False\<rparr>\<rparr>)))"

definition isReady :: "App \<Rightarrow> bool" where
  "isReady app = isInitialized (leapLiquidAI app)"

definition LeapSDK_createConversation :: "string option \<Rightarrow> App \<Rightarrow> (js_error + resolved) \<times> App" where
  "LeapSDK_createConversation thrown app =
     (let (r, n) = native_createConversation thrown (native app) in (awaited_result r, app\<lparr>native := n\<rparr>))"

definition leapLiquidAI_createConversation :: "string option \<Rightarrow> App \<Rightarrow> (js_error + unit) \<times> App" where
  "leapLiquidAI_createConversation thrown app =
     (if \<not> isInitialized (leapLiquidAI app)
      then (Inl (Error ''Leap Liquid AI is not initialized. Call initialize() first.''), app)
      else
        (let (r, app1) = LeapSDK_createConversation thrown app
         in case r of
              Inr v \<Rightarrow> (Inr (), app1\<lparr>leapLiquidAI := (leapLiquidAI app1)\<lparr>conversationCreated := True\<rparr>\<rparr>)
            | Inl error \<Rightarrow> (Inl error, app1)))"

definition LeapSDK_cancelGeneration :: "string option \<Rightarrow> App \<Rightarrow> (js_error + resolved) \<times> App" where
  "LeapSDK_cancelGeneration thrown app =
     (let app1 = removeAllListeners app;
          (r, n) = native_cancelGeneration thrown (native app1)
      in (awaited_result r, app1\<lparr>native := n\<rparr>))"

definition leapLiquidAI_cancelGeneration :: "string option \<Rightarrow> App \<Rightarrow> (js_error + unit) \<times> App" where
  "leapLiquidAI_cancelGeneration thrown app =
     (let (r, app1) = LeapSDK_cancelGeneration thrown app
      in case r of Inr v \<Rightarrow> (Inr (), app1) | Inl error \<Rightarrow> (Inl error, app1))"

definition LeapSDK_getHistory :: "string option \<Rightarrow> App \<Rightarrow> js_error + resolved" where
  "LeapSDK_getHistory thrown app = awaited_result (native_getHistory thrown (native app))"

definition leapLiquidAI_getHistory :: "string option \<Rightarrow> App \<Rightarrow> js_error + resolved" where
  "leapLiquidAI_getHistory thrown app =
     (if \<not> isInitialized (leapLiquidAI app)
      then Inl (Error ''Leap Liquid AI is not initialized. Call initialize() first.'')
      else (case LeapSDK_getHistory thrown app of Inr v \<Rightarrow> Inr v | Inl error \<Rightarrow> Inl error))"

definition LeapSDK_cleanup :: "string option \<Rightarrow> App \<Rightarrow> (js_error + resolved) \<times> App" where
  "LeapSDK_cleanup thrown app =
     (let app1 = removeAllListeners app;
          (r, n) = native_cleanup thrown (native app1)
      in (awaited_result r, app1\<lparr>native := n\<rparr>))"

definition leapLiquidAI_cleanup :: "string option \<Rightarrow> App \<Rightarrow> (js_error + unit) \<times> App" where
  "leapLiquidAI_cleanup thrown app =
     (let (r, app1) = LeapSDK_cleanup thrown app
      in case r of
           Inr v \<Rightarrow>
             (Inr (), app1\<lparr>leapLiquidAI :=
                (leapLiquidAI app1)\<lparr>isInitialized := False, conversationCreated := False, modelPath := None\<rparr>\<rparr>)
         | Inl error \<Rightarrow> (Inl error, app1))"

subsection \<open>A turn: handleSend, sendMessage, generateResponse and the delivery of bridge calls\<close>

text \<open>
  What runs when the promise of \<^verbatim>\<open>LeapSDK.generateResponse(input)\<close> is settled: the wrapper
  removes its listeners on both paths, the service passes the result or the error on, and
  \<^verbatim>\<open>handleSend\<close> runs its \<^verbatim>\<open>catch\<close> (on an error) and \<^verbatim>\<open>finally\<close>.
\<close>

definition handleSend_resume :: "nat \<Rightarrow> js_error + resolved \<Rightarrow> App \<Rightarrow> App" where
  "handleSend_resume responseId r app =
     (case r of
        Inr v \<Rightarrow> app\<lparr>chat := handleSend_finally (chat app)\<rparr>
      | Inl error \<Rightarrow> app\<lparr>chat := handleSend_finally (handleSend_catch responseId error (chat app))\<rparr>)"

definition generateResponse_settled :: "nat \<Rightarrow> nat \<Rightarrow> settlement \<Rightarrow> App \<Rightarrow> App" where
  "generateResponse_settled p responseId r app =
     handleSend_resume responseId (awaited_result r)
       (removeAllListeners (app\<lparr>awaited := filter (\<lambda>(q, rid). q \<noteq> p) (awaited app)\<rparr>))"

text \<open>
  The emitter calls the listeners registered for the event's name, in registration order.
  A bridge promise is settled by the first \<^verbatim>\<open>resolve\<close>/\<^verbatim>\<open>reject\<close> only; the continuation of
  the \<^verbatim>\<open>await\<close> runs before the next bridge call is handled.
\<close>

definition emit :: "event \<Rightarrow> (string \<times> callback) list \<Rightarrow> ChatScreen \<Rightarrow> ChatScreen" where
  "emit ev subs c = fold (\<lambda>(name, cb) c'. if name = eventName ev then invoke cb ev c' else c') subs c"

fun deliver :: "bridge_call \<Rightarrow> App \<Rightarrow> App" where
  "deliver (SendEvent ev) app = app\<lparr>chat := emit ev (subscriptions (LeapSDK app)) (chat app)\<rparr>"
| "deliver (Settle p r) app =
     (case map_of (awaited app) p of
        None \<Rightarrow> app
      | Some responseId \<Rightarrow> generateResponse_settled p responseId r app)"

definition delivers :: "bridge_call list \<Rightarrow> App \<Rightarrow> App" where
  "delivers calls app = fold deliver calls app"

definition addListener :: "string \<Rightarrow> callback option \<Rightarrow> (string \<times> callback) list \<Rightarrow> (string \<times> callback) list" where
  "addListener name cb subs = (case cb of None \<Rightarrow> subs | Some f \<Rightarrow> subs @ [(name, f)])"

text \<open>
  The wrapper's \<^verbatim>\<open>generateResponse\<close> up to its \<^verbatim>\<open>await\<close>: it returns the number of the promise
  it awaits and what the native method sent at once.
\<close>

definition LeapSDK_generateResponse ::
  "string \<Rightarrow> callback option \<Rightarrow> callback option \<Rightarrow> callback option \<Rightarrow>
   MessageResponse list \<Rightarrow> string option \<Rightarrow> App \<Rightarrow> (nat \<times> bridge_call list) \<times> App" where
  "LeapSDK_generateResponse inp onChunk onComplete onError rs fault app =
     (let subs = addListener ''onError'' onError
                   (addListener ''onComplete'' onComplete
                      (addListener ''onChunk'' onChunk (subscriptions (LeapSDK app))));
          p = promises app;
          (out, n) = native_generateResponse inp rs fault p (native app)
      in ((p, out), app\<lparr>LeapSDK := (LeapSDK app)\<lparr>subscriptions := subs\<rparr>, native := n, promises := Suc p\<rparr>))"

text \<open>\<^verbatim>\<open>sendMessage\<close> up to its \<^verbatim>\<open>await\<close>: an error thrown by a guard, or the pending promise.\<close>

definition leapLiquidAI_sendMessage ::
  "string \<Rightarrow> callback option \<Rightarrow> callback option \<Rightarrow> callback option \<Rightarrow>
   MessageResponse list \<Rightarrow> string option \<Rightarrow> App \<Rightarrow> (js_error + nat \<times> bridge_call list) \<times> App" where
  "leapLiquidAI_sendMessage userMessage onChunk onComplete onError rs fault app =
     (if \<not> isInitialized (leapLiquidAI app)
      then (Inl (Error ''Leap Liquid AI is not initialized. Call initialize() first.''), app)
      else if \<not> conversationCreated (leapLiquidAI app)
      then (Inl (Error ''No conversation created. Call createConversation() first.''), app)
      else
        (let (pending, app1) = LeapSDK_generateResponse userMessage onChunk onComplete onError rs fault app
         in (Inr pending, app1)))"

text \<open>
  \<^verbatim>\<open>handleSend\<close>, run until it waits for the generation. \<open>t1\<close>, \<open>t2\<close>, \<open>t3\<close>, \<open>t4\<close> are its four
  clock readings in program order; \<open>rs\<close> and \<open>fault\<close> are what the SDK will produce for the
  input.
\<close>

definition handleSend ::
  "nat \<Rightarrow> nat \<Rightarrow> nat \<Rightarrow> nat \<Rightarrow> MessageResponse list \<Rightarrow> string option \<Rightarrow> App \<Rightarrow> App" where
  "handleSend t1 t2 t3 t4 rs fault app =
     (if trim (inputText (chat app)) = [] \<or> isLoading (chat app) \<or> \<not> isInitialized_chat (chat app)
      then app
      else
        (let userMessage =
               \<lparr>id_msg = t1, text_msg = trim (inputText (chat app)), role = user, timestamp = t2\<rparr>;
             userInput = trim (inputText (chat app));
             responseId = t3 + 1;
             assistantMessage = \<lparr>id_msg = responseId, text_msg = [], role = assistant, timestamp = t4\<rparr>;
             app1 = app\<lparr>chat := (chat app)
                      \<lparr>messages := (messages (chat app) @ [userMessage]) @ [assistantMessage],
                       inputText := [], isLoading := True, currentResponseId := Some responseId\<rparr>\<rparr>;
             (r, app2) = leapLiquidAI_sendMessage userInput
                           (Some (handleSend_onChunk responseId))
                           (Some (handleSend_onComplete responseId))
                           (Some (handleSend_onError responseId)) rs fault app1
         in case r of
              Inl error \<Rightarrow> handleSend_resume responseId (Inl error) app2
            | Inr (p, out) \<Rightarrow> delivers out (app2\<lparr>awaited := awaited app2 @ [(p, responseId)]\<rparr>)))"

text \<open>A coroutine of the native module is dispatched once; JavaScript handles what it sent.\<close>

definition dispatch :: "nat \<Rightarrow> App \<Rightarrow> App" where
  "dispatch i app = (let (out, n) = exec (Dispatch i) (native app) in delivers out (app\<lparr>native := n\<rparr>))"

fun dispatches :: "nat \<Rightarrow> nat \<Rightarrow> App \<Rightarrow> App" where
  "dispatches 0 i app = app"
| "dispatches (Suc k) i app = dispatches k i (dispatch i app)"

text \<open>
  The effect run at mount (\<^verbatim>\<open>initializeSDK\<close>), with the component still mounted when it
  finishes; \<open>now\<close> is the clock reading of the message it writes.
\<close>

definition initializeSDK :: "nat \<Rightarrow> exn option \<Rightarrow> string option \<Rightarrow> App \<Rightarrow> App" where
  "initializeSDK now load_thrown conv_thrown app =
     (if isInitialized_chat (chat app) \<or> isInitializing (chat app) then app
      else
        (let app1 = app\<lparr>chat := (chat app)\<lparr>isInitializing := True\<rparr>\<rparr>;
             modelPath = ''/data/local/tmp/leap/model.bundle'';
             (r1, app2) = leapLiquidAI_initialize modelPath load_thrown app1;
             (r2, app3) = (case r1 of
                             Inl error \<Rightarrow> (Inl error, app2)
                           | Inr v \<Rightarrow> leapLiquidAI_createConversation conv_thrown app2);
             app4 = (case r2 of
                       Inr v \<Rightarrow>
                         app3\<lparr>chat := (chat app3)
                           \<lparr>isInitialized_chat := True,
                            messages := [\<lparr>id_msg = 1,
                              text_msg = ''Hello! I'm your AI assistant powered by Leap Liquid AI. How can I help you today?'',
                              role = assistant, timestamp = now\<rparr>]\<rparr>\<rparr>
                     | Inl error \<Rightarrow>
                         (let errorMessage = message_or error ''Unknown error''
                          in app3\<lparr>chat := (chat app3)
                               \<lparr>messages := [\<lparr>id_msg = 1,
                                  text_msg = ''AI model not available. Error: '' @ errorMessage
                                    @ [CHR 0x0A, CHR 0x0A]
                                    @ ''Please ensure the model bundle is loaded on the device.'',
                                  role = assistant, timestamp = now\<rparr>]\<rparr>\<rparr>))
         in app4\<lparr>chat := (chat app4)\<lparr>isInitializing := False\<rparr>\<rparr>))"

text \<open>The user types into the input field (\<^verbatim>\<open>onChangeText={setInputText}\<close>).\<close>

definition setInputText :: "string \<Rightarrow> App \<Rightarrow> App" where
  "setInputText s app = app\<lparr>chat := (chat app)\<lparr>inputText := s\<rparr>\<rparr>"

text \<open>The texts of the messages with a given id, in list order.\<close>

definition texts_of :: "nat \<Rightarrow> App \<Rightarrow> string list" where
  "texts_of responseId app = map text_msg (filter (\<lambda>msg. id_msg msg = responseId) (messages (chat app)))"

section \<open>Notions in which the properties are stated\<close>

text \<open>The text a response adds to the full response, and the text of the event sent for it.\<close>

fun content_of :: "MessageResponse \<Rightarrow> string" where
  "content_of (Chunk t) = t"
| "content_of (ReasoningChunk s) = []"
| "content_of OtherResponse = []"

fun streamed_of :: "MessageResponse \<Rightarrow> string" where
  "streamed_of (Chunk t) = t"
| "streamed_of (ReasoningChunk s) = s"
| "streamed_of OtherResponse = []"

fun chunk_events :: "MessageResponse list \<Rightarrow> event list" where
  "chunk_events [] = []"
| "chunk_events (Chunk t # rs) = ChunkEvent t ''chunk'' # chunk_events rs"
| "chunk_events (ReasoningChunk s # rs) = ChunkEvent s ''reasoning'' # chunk_events rs"
| "chunk_events (OtherResponse # rs) = chunk_events rs"

fun is_error_event :: "bridge_call \<Rightarrow> bool" where
  "is_error_event (SendEvent (ErrorEvent e)) = True"
| "is_error_event c = False"

fun is_rejection :: "bridge_call \<Rightarrow> bool" where
  "is_rejection (Settle p (Reject code msg)) = True"
| "is_rejection c = False"

text \<open>A generation is in flight while its coroutine is active: neither cancelled nor finished.\<close>

definition in_flight :: "Job \<Rightarrow> bool" where
  "in_flight j = (status j = Active)"

text \<open>The three listeners of the turn with a given \<^verbatim>\<open>responseId\<close>, as the wrapper registers them.\<close>

definition listeners_of :: "nat \<Rightarrow> (string \<times> callback) list" where
  "listeners_of responseId =
     [(''onChunk'', handleSend_onChunk responseId),
      (''onComplete'', handleSend_onComplete responseId),
      (''onError'', handleSend_onError responseId)]"

text \<open>
  Concrete states: the application after a successful start with the text \<^verbatim>\<open>Hi\<close> typed, the
  same one dispatch into the turn that streams \<^verbatim>\<open>Hel\<close>, \<^verbatim>\<open>lo\<close>, and that turn cancelled.
\<close>

definition example_ready :: App where
  "example_ready = setInputText ''Hi'' (initializeSDK 5 None None (new_app 3))"

definition example_streaming :: App where
  "example_streaming = dispatch 0 (handleSend 10 10 11 11 [Chunk ''Hel'', Chunk ''lo''] None example_ready)"

definition example_cancelled :: App where
  "example_cancelled = snd (leapLiquidAI_cancelGeneration None example_streaming)"

text \<open>
  The invariant behind the single generation in flight: an active coroutine is the one
  \<^verbatim>\<open>generationJob\<close> refers to.
\<close>

definition referenced :: "LeapSDKModule \<Rightarrow> bool" where
  "referenced m = (\<forall>i < length (jobs m). status (jobs m ! i) = Active \<longrightarrow> generationJob m = Some i)"

text \<open>The text an emitter event carries.\<close>

fun event_text :: "event \<Rightarrow> string" where
  "event_text (ChunkEvent t ty) = t"
| "event_text (CompleteEvent t) = t"
| "event_text (ErrorEvent e) = e"

text \<open>
  A screen from which \<^verbatim>\<open>handleSend\<close> starts a turn: some text is typed, nothing is loading,
  screen and service are initialized, the conversation exists, no listener is left from
  an earlier turn, and the id the placeholder will get (\<^verbatim>\<open>Date.now() + 1\<close> at the reading
  \<open>t3\<close>) is new in the message log and differs from the user message's id \<open>t1\<close>.
\<close>

definition ready_to_send :: "nat \<Rightarrow> nat \<Rightarrow> App \<Rightarrow> bool" where
  "ready_to_send t1 t3 app =
     (trim (inputText (chat app)) \<noteq> [] \<and> \<not> isLoading (chat app) \<and> isInitialized_chat (chat app)
      \<and> isInitialized (leapLiquidAI app) \<and> conversationCreated (leapLiquidAI app)
      \<and> currentConversation (native app) \<noteq> None
      \<and> subscriptions (LeapSDK app) = []
      \<and> t3 + 1 \<notin> id_msg ` set (messages (chat app)) \<and> t3 + 1 \<noteq> t1)"

text \<open>
  What JavaScript sees of a bridge call: a listener called with an event (\<open>emit\<close> calls
  exactly the listeners registered under the event's name), or the caller awaiting a
  promise resumed with its result (only a promise still awaited resumes anyone).
  \<open>observations\<close> lists what is seen while a sequence of bridge calls is delivered.
\<close>

datatype observation = Called callback event | Resumed nat "js_error + resolved"

fun observe :: "bridge_call \<Rightarrow> App \<Rightarrow> observation list" where
  "observe (SendEvent ev) app =
     map (\<lambda>(name, cb). Called cb ev)
       (filter (\<lambda>(name, cb). name = eventName ev) (subscriptions (LeapSDK app)))"
| "observe (Settle p r) app =
     (case map_of (awaited app) p of
        None \<Rightarrow> []
      | Some responseId \<Rightarrow> [Resumed responseId (awaited_result r)])"

fun observations :: "bridge_call list \<Rightarrow> App \<Rightarrow> observation list" where
  "observations [] app = []"
| "observations (c # cs) app = observe c app @ observations cs (deliver c app)"

fun is_settlement :: "bridge_call \<Rightarrow> bool" where
  "is_settlement (Settle p r) = True"
| "is_settlement (SendEvent ev) = False"

text \<open>
  After the cancellation, \<^verbatim>\<open>sendMessage\<close> is called again, with callbacks that write to the
  message of the cancelled turn, while the cancelled coroutine has not finished.
\<close>

definition example_resent :: App where
  "example_resent =
     snd (leapLiquidAI_sendMessage ''again'' (Some (handleSend_onChunk 12))
            (Some (handleSend_onComplete 12)) (Some (handleSend_onError 12)) [Chunk ''x''] None
            example_cancelled)"

section \<open>Properties of the native generation pipeline\<close>

lemma onEach_action_no_failure:
  "filter is_error_event (fst (onEach_action r rb)) = []
   \<and> filter is_rejection (fst (onEach_action r rb)) = []"
  by (cases r) (simp_all add: onEach_action_def)

text \<open>
  Dispatching an active coroutine once per pending response and once more runs the whole
  collection: it sends what \<open>collect\<close> lists and the coroutine is completed.
\<close>

lemma run_job_collect:
  "status j = Active \<Longrightarrow> upstream j = rs \<Longrightarrow>
     fst (run_job (Suc (length rs)) j) = collect (promise j) rs (upstream_fault j) (responseBuilder j)
     \<and> status (snd (run_job (Suc (length rs)) j)) = Completed"
proof (induction rs arbitrary: j)
  case Nil
  then show ?case
    by (simp add: job_step_def split: option.splits)
next
  case (Cons r rs)
  obtain out rb where o: "onEach_action r (responseBuilder j) = (out, rb)"
    by (cases "onEach_action r (responseBuilder j)")
  let ?j' = "j\<lparr>upstream := rs, responseBuilder := rb, started := True\<rparr>"
  have step: "job_step j = (out, ?j')"
    using Cons.prems o by (simp add: job_step_def)
  have "status ?j' = Active" "upstream ?j' = rs"
    using Cons.prems by simp_all
  from Cons.IH [OF this]
  have ih: "fst (run_job (Suc (length rs)) ?j') = collect (promise j) rs (upstream_fault j) rb"
    "status (snd (run_job (Suc (length rs)) ?j')) = Completed"
    by simp_all
  obtain outs j'' where r: "run_job (Suc (length rs)) ?j' = (outs, j'')"
    by (cases "run_job (Suc (length rs)) ?j'")
  have "run_job (Suc (length (r # rs))) j = (out @ outs, j'')"
    using step r by (simp del: run_job.simps(2) add: run_job.simps(2) [of "Suc (length rs)" j])
  then show ?case
    using ih r o by simp
qed

lemma collect_fault_errors:
  "filter is_error_event (collect p rs (Some msg) rb)
     = [SendEvent (ErrorEvent (''Error in generation: '' @ msg)),
        SendEvent (ErrorEvent (''Error in generation: '' @ msg))]"
proof (induction rs arbitrary: rb)
  case Nil
  show ?case by (simp add: onCompletion_action_def catch_action_def Let_def)
next
  case (Cons r rs)
  show ?case using Cons.IH onEach_action_no_failure [of r rb]
    by (simp add: split_def Let_def)
qed

lemma collect_fault_rejections:
  "filter is_rejection (collect p rs (Some msg) rb)
     = [Settle p (Reject ''GENERATION_ERROR'' (''Error in generation: '' @ msg)),
        Settle p (Reject ''GENERATION_ERROR'' (''Error in generation: '' @ msg))]"
proof (induction rs arbitrary: rb)
  case Nil
  show ?case by (simp add: onCompletion_action_def catch_action_def Let_def)
next
  case (Cons r rs)
  show ?case using Cons.IH onEach_action_no_failure [of r rb]
    by (simp add: split_def Let_def)
qed

text \<open>
  When the SDK's flow throws, \<^verbatim>\<open>onCompletion\<close> (with a non-null cause) sends \<^verbatim>\<open>onError\<close> and
  rejects the promise, and \<^verbatim>\<open>catch\<close> then does both again: the coroutine sends the error
  event twice and calls \<^verbatim>\<open>promise.reject\<close> twice.
\<close>

lemma fault_handlers_both_run:
  "filter is_error_event (fst (run_job (Suc (length rs)) (launch p inp rs (Some msg))))
     = [SendEvent (ErrorEvent (''Error in generation: '' @ msg)),
        SendEvent (ErrorEvent (''Error in generation: '' @ msg))]
   \<and> filter is_rejection (fst (run_job (Suc (length rs)) (launch p inp rs (Some msg))))
     = [Settle p (Reject ''GENERATION_ERROR'' (''Error in generation: '' @ msg)),
        Settle p (Reject ''GENERATION_ERROR'' (''Error in generation: '' @ msg))]
   \<and> fst (run_job 1 (launch 0 ''Hi'' [] (Some ''boom'')))
     = [SendEvent (ErrorEvent ''Error in generation: boom''),
        Settle 0 (Reject ''GENERATION_ERROR'' ''Error in generation: boom''),
        SendEvent (ErrorEvent ''Error in generation: boom''),
        Settle 0 (Reject ''GENERATION_ERROR'' ''Error in generation: boom'')]"
proof -
  have a: "status (launch p inp rs (Some msg)) = Active" "upstream (launch p inp rs (Some msg)) = rs"
    by (simp_all add: launch_def)
  have "fst (run_job (Suc (length rs)) (launch p inp rs (Some msg))) = collect p rs (Some msg) []"
    using run_job_collect [OF a] by (simp add: launch_def)
  moreover have "fst (run_job 1 (launch 0 ''Hi'' [] (Some ''boom''))) = collect 0 [] (Some ''boom'') []"
    using run_job_collect [of "launch 0 ''Hi'' [] (Some ''boom'')" "[]"] by (simp add: launch_def)
  ultimately show ?thesis
    by (simp add: collect_fault_errors collect_fault_rejections onCompletion_action_def
        catch_action_def Let_def)
qed

section \<open>A single generation in flight\<close>

lemma cancel_job_not_active: "status (cancel_job j) \<noteq> Active"
  by (cases "status j") (simp_all add: cancel_job_def)

lemma cancel_job_keeps_inactive: "status j \<noteq> Active \<Longrightarrow> cancel_job j = j"
  by (cases "status j") (simp_all add: cancel_job_def)

lemma length_cancel_generationJob [simp]: "length (cancel_generationJob m) = length (jobs m)"
  by (simp add: cancel_generationJob_def split: option.splits)

lemma cancel_generationJob_none_active:
  assumes "referenced m" and "i < length (jobs m)"
  shows "status (cancel_generationJob m ! i) \<noteq> Active"
proof (cases "generationJob m")
  case None
  with assms show ?thesis by (auto simp: referenced_def cancel_generationJob_def)
next
  case (Some g)
  show ?thesis
  proof (cases "g = i")
    case True
    with Some assms show ?thesis
      by (simp add: cancel_generationJob_def cancel_job_not_active)
  next
    case False
    with Some assms have "status (jobs m ! i) \<noteq> Active"
      by (auto simp: referenced_def)
    with Some False assms show ?thesis
      by (simp add: cancel_generationJob_def)
  qed
qed

lemma cancel_generationJob_no_flight:
  assumes "referenced m"
  shows "filter in_flight (cancel_generationJob m) = []"
proof -
  have "\<forall>j \<in> set (cancel_generationJob m). \<not> in_flight j"
  proof
    fix j assume "j \<in> set (cancel_generationJob m)"
    then obtain i where "i < length (cancel_generationJob m)" "cancel_generationJob m ! i = j"
      by (auto simp: in_set_conv_nth)
    with cancel_generationJob_none_active [OF assms, of i] show "\<not> in_flight j"
      by (simp add: in_flight_def)
  qed
  then show ?thesis by (simp add: filter_empty_conv)
qed

lemma job_step_not_activating: "status j \<noteq> Active \<Longrightarrow> status (snd (job_step j)) \<noteq> Active"
  by (cases "status j") (simp_all add: job_step_def)

lemma referenced_after_cancel:
  assumes "referenced m"
  shows "referenced (m\<lparr>jobs := cancel_generationJob m, generationJob := g\<rparr>)"
  using cancel_generationJob_none_active [OF assms] by (simp add: referenced_def)

lemma referenced_exec:
  assumes "referenced m"
  shows "referenced (snd (exec op m))"
proof (cases op)
  case (LoadModel path thrown)
  with assms show ?thesis
    by (cases thrown; cases "the thrown") (simp_all add: native_loadModel_def referenced_def)
next
  case (CreateConversation thrown)
  with assms show ?thesis
    by (simp add: native_createConversation_def referenced_def split: option.splits)
next
  case (GenerateResponse inp rs fault p)
  show ?thesis
  proof (cases "currentConversation m")
    case None
    with GenerateResponse assms show ?thesis by (simp add: native_generateResponse_def)
  next
    case (Some c)
    have "referenced (m\<lparr>generationJob := Some (length (cancel_generationJob m)),
             jobs := cancel_generationJob m @ [launch p inp rs fault]\<rparr>)"
      using cancel_generationJob_none_active [OF assms]
      by (auto simp: referenced_def nth_append)
    with GenerateResponse Some show ?thesis by (simp add: native_generateResponse_def Let_def)
  qed
next
  case (CancelGeneration thrown)
  with assms referenced_after_cancel [OF assms, of None] show ?thesis
    by (cases thrown) (simp_all add: native_cancelGeneration_def Let_def)
next
  case (Cleanup thrown)
  have "referenced (m\<lparr>jobs := cancel_generationJob m, generationJob := None,
             currentConversation := None, modelRunner := None\<rparr>)"
    using cancel_generationJob_none_active [OF assms] by (simp add: referenced_def)
  with Cleanup assms show ?thesis
    by (cases thrown) (simp_all add: native_cleanup_def Let_def)
next
  case (Dispatch i)
  show ?thesis
  proof (cases "i < length (jobs m)")
    case False
    with Dispatch assms show ?thesis by simp
  next
    case True
    have "referenced (m\<lparr>jobs := (jobs m)[i := snd (job_step (jobs m ! i))]\<rparr>)"
      unfolding referenced_def
    proof (intro allI impI)
      fix k assume k: "k < length (jobs (m\<lparr>jobs := (jobs m)[i := snd (job_step (jobs m ! i))]\<rparr>))"
        and a: "status (jobs (m\<lparr>jobs := (jobs m)[i := snd (job_step (jobs m ! i))]\<rparr>) ! k) = Active"
      show "generationJob (m\<lparr>jobs := (jobs m)[i := snd (job_step (jobs m ! i))]\<rparr>) = Some k"
      proof (cases "k = i")
        case True
        with a k have "status (snd (job_step (jobs m ! i))) = Active" by simp
        then have "status (jobs m ! i) = Active" using job_step_not_activating by blast
        with assms \<open>i < length (jobs m)\<close> True show ?thesis by (simp add: referenced_def)
      next
        case False
        with a k have "status (jobs m ! k) = Active" by simp
        with assms k show ?thesis by (simp add: referenced_def)
      qed
    qed
    with Dispatch True show ?thesis by (simp add: split_def Let_def)
  qed
qed

lemma referenced_execs: "referenced m \<Longrightarrow> referenced (execs ops m)"
  by (induction ops arbitrary: m) (simp_all add: referenced_exec)

lemma referenced_at_most_one:
  assumes "referenced m"
  shows "length (filter in_flight (jobs m)) \<le> 1"
proof (cases "generationJob m")
  case None
  with assms have "\<forall>j \<in> set (jobs m). \<not> in_flight j"
    by (auto simp: referenced_def in_flight_def in_set_conv_nth)
  then have "filter in_flight (jobs m) = []" by (simp add: filter_empty_conv)
  then show ?thesis by simp
next
  case (Some g)
  have "filter in_flight (cancel_generationJob m) = []"
    by (rule cancel_generationJob_no_flight [OF assms])
  show ?thesis
  proof (cases "g < length (jobs m)")
    case False
    with Some assms have "\<forall>j \<in> set (jobs m). \<not> in_flight j"
      by (auto simp: referenced_def in_flight_def in_set_conv_nth)
    then have "filter in_flight (jobs m) = []" by (simp add: filter_empty_conv)
    then show ?thesis by simp
  next
    case True
    have split: "jobs m = take g (jobs m) @ jobs m ! g # drop (Suc g) (jobs m)"
      using True by (simp add: id_take_nth_drop)
    have "\<forall>j \<in> set (take g (jobs m)). \<not> in_flight j"
    proof
      fix j assume "j \<in> set (take g (jobs m))"
      then obtain i where i: "i < g" "jobs m ! i = j" using True
        by (auto simp: in_set_conv_nth)
      then have "i < length (jobs m)" "i \<noteq> g" using True by simp_all
      with Some assms have "status (jobs m ! i) \<noteq> Active"
        unfolding referenced_def by (metis option.inject)
      with i show "\<not> in_flight j" by (simp add: in_flight_def)
    qed
    then have a: "filter in_flight (take g (jobs m)) = []" by (simp add: filter_empty_conv)
    have "\<forall>j \<in> set (drop (Suc g) (jobs m)). \<not> in_flight j"
    proof
      fix j assume "j \<in> set (drop (Suc g) (jobs m))"
      then obtain i where i: "i < length (jobs m) - Suc g" "j = jobs m ! (Suc g + i)"
        by (auto simp: in_set_conv_nth)
      then have "Suc g + i < length (jobs m)" "Suc g + i \<noteq> g" by simp_all
      with Some assms have "status (jobs m ! (Suc g + i)) \<noteq> Active"
        unfolding referenced_def by (metis option.inject)
      with i show "\<not> in_flight j" by (simp add: in_flight_def)
    qed
    then have b: "filter in_flight (drop (Suc g) (jobs m)) = []" by (simp add: filter_empty_conv)
    have "length (filter in_flight (jobs m))
            = length (filter in_flight (take g (jobs m) @ jobs m ! g # drop (Suc g) (jobs m)))"
      using split by simp
    also have "\<dots> \<le> 1" using a b by simp
    finally show ?thesis .
  qed
qed

lemma referenced_new_module: "referenced new_module"
  by (simp add: referenced_def new_module_def)

text \<open>
  C5. In every state the module reaches from its initial one, by any sequence of method
  calls and coroutine dispatches, at most one generation is in flight. When
  \<^verbatim>\<open>generateResponse\<close> is called with a conversation present, the coroutines that existed
  before the call are all cancelled or finished in the job list the new coroutine is
  appended to (\<^verbatim>\<open>generationJob?.cancel()\<close> precedes \<^verbatim>\<open>scope.launch\<close>), the call itself
  sends nothing, and the new coroutine has not started, so it has emitted no event.
\<close>

theorem at_most_one_generation_in_flight:
  "length (filter in_flight (jobs (execs ops new_module))) \<le> 1
   \<and> (currentConversation (execs ops new_module) \<noteq> None \<longrightarrow>
        fst (exec (GenerateResponse inp rs fault p) (execs ops new_module)) = []
        \<and> jobs (snd (exec (GenerateResponse inp rs fault p) (execs ops new_module)))
            = cancel_generationJob (execs ops new_module) @ [launch p inp rs fault]
        \<and> filter in_flight (cancel_generationJob (execs ops new_module)) = []
        \<and> started (launch p inp rs fault) = False
        \<and> generationJob (snd (exec (GenerateResponse inp rs fault p) (execs ops new_module)))
            = Some (length (jobs (execs ops new_module))))"
proof -
  have r: "referenced (execs ops new_module)"
    by (rule referenced_execs [OF referenced_new_module])
  show ?thesis
    using referenced_at_most_one [OF r] cancel_generationJob_no_flight [OF r]
    by (auto simp: native_generateResponse_def Let_def launch_def)
qed

theorem at_most_one_generation_in_flight_witness:
  "currentConversation (execs [LoadModel ''m'' None, CreateConversation None,
       GenerateResponse ''A'' [Chunk ''a''] None 0, Dispatch 0] new_module) \<noteq> None
   \<and> length (filter in_flight (jobs (execs [LoadModel ''m'' None, CreateConversation None,
       GenerateResponse ''A'' [Chunk ''a''] None 0, Dispatch 0] new_module))) \<le> 1
   \<and> map status (jobs (snd (exec (GenerateResponse ''B'' [Chunk ''b''] None 1)
       (execs [LoadModel ''m'' None, CreateConversation None,
          GenerateResponse ''A'' [Chunk ''a''] None 0, Dispatch 0] new_module))))
       = [Cancelling, Active]"
  using at_most_one_generation_in_flight [of "[LoadModel ''m'' None, CreateConversation None,
       GenerateResponse ''A'' [Chunk ''a''] None 0, Dispatch 0]" "''B''" "[Chunk ''b'']" None 1]
  by (simp add: new_module_def native_loadModel_def native_createConversation_def
      native_generateResponse_def cancel_generationJob_def cancel_job_def launch_def job_step_def
      onEach_action_def Let_def)

section \<open>Lifecycle calls of the service\<close>

lemma example_ready_service:
  "leapLiquidAI example_ready =
     \<lparr>isInitialized = True, modelPath = Some ''/data/local/tmp/leap/model.bundle'', conversationCreated = True\<rparr>"
  by (simp add: example_ready_def setInputText_def initializeSDK_def new_app_def new_chat_def
      leapLiquidAI_initialize_def LeapSDK_loadModel_def native_loadModel_def awaited_result_def
      leapLiquidAI_createConversation_def LeapSDK_createConversation_def
      native_createConversation_def new_module_def Let_def)

lemma example_ready_native:
  "native example_ready =
     \<lparr>modelRunner = Some ''/data/local/tmp/leap/model.bundle'',
      currentConversation = Some (Conversation ''/data/local/tmp/leap/model.bundle''),
      generationJob = None, jobs = []\<rparr>"
  by (simp add: example_ready_def setInputText_def initializeSDK_def new_app_def new_chat_def
      leapLiquidAI_initialize_def LeapSDK_loadModel_def native_loadModel_def awaited_result_def
      leapLiquidAI_createConversation_def LeapSDK_createConversation_def
      native_createConversation_def new_module_def Let_def)

lemma example_ready_wrapper: "subscriptions (LeapSDK example_ready) = []"
  by (simp add: example_ready_def setInputText_def initializeSDK_def new_app_def new_chat_def
      leapLiquidAI_initialize_def LeapSDK_loadModel_def native_loadModel_def awaited_result_def
      leapLiquidAI_createConversation_def LeapSDK_createConversation_def
      native_createConversation_def new_module_def Let_def)

text \<open>
  C6. The claim: calling loadModel on a loaded session returns a no-op error. Counterexample:
  \<^verbatim>\<open>initialize\<close> on the initialized service returns normally, with no error.
\<close>

theorem initialize_again_counterexample:
  "isInitialized (leapLiquidAI example_ready)
   \<and> fst (leapLiquidAI_initialize ''/data/local/tmp/leap/model.bundle'' None example_ready) = Inr ()"
  by (simp add: leapLiquidAI_initialize_def example_ready_service)

text \<open>
  C6, amended. \<^verbatim>\<open>initialize\<close> on an initialized service is a no-op that succeeds: it returns
  without an error whatever the path, and the whole application state, the native module
  with its model runner included, is unchanged: the model is not loaded again.
\<close>

theorem initialize_again_is_silent_noop:
  "isInitialized (leapLiquidAI app) \<Longrightarrow> leapLiquidAI_initialize path thrown app = (Inr (), app)"
  by (simp add: leapLiquidAI_initialize_def)

theorem initialize_again_is_silent_noop_witness:
  "isInitialized (leapLiquidAI example_ready)
   \<and> leapLiquidAI_initialize ''/sdcard/other.bundle'' (Some (Exception ''unreadable'')) example_ready
       = (Inr (), example_ready)"
  using initialize_again_is_silent_noop [of example_ready "''/sdcard/other.bundle''" "Some (Exception ''unreadable'')"]
  by (simp add: example_ready_service)

text \<open>
  C7. The claim: a failed \<^verbatim>\<open>initialize\<close> leaves every field of the service as it was. On a
  fresh service whose load fails, \<^verbatim>\<open>initialize\<close> rejects and \<^verbatim>\<open>isInitialized\<close> and
  \<^verbatim>\<open>conversationCreated\<close> are unchanged, but \<^verbatim>\<open>modelPath\<close>, assigned before the load is
  awaited and not reset by the \<^verbatim>\<open>catch\<close> block, has changed from \<^verbatim>\<open>null\<close> to the path.
\<close>

theorem failed_initialize_keeps_modelPath:
  "fst (leapLiquidAI_initialize ''/data/local/tmp/leap/model.bundle''
          (Some (LeapModelLoadingException ''no such file'')) (new_app 0))
     = Inl (Error ''Failed to load model: no such file'')
   \<and> leapLiquidAI (new_app 0)
     = \<lparr>isInitialized = False, modelPath = None, conversationCreated = False\<rparr>
   \<and> leapLiquidAI (snd (leapLiquidAI_initialize ''/data/local/tmp/leap/model.bundle''
          (Some (LeapModelLoadingException ''no such file'')) (new_app 0)))
     = \<lparr>isInitialized = False, modelPath = Some ''/data/local/tmp/leap/model.bundle'',
        conversationCreated = False\<rparr>"
  by (simp add: leapLiquidAI_initialize_def LeapSDK_loadModel_def native_loadModel_def
      awaited_result_def new_app_def new_module_def Let_def)

text \<open>Apart from \<^verbatim>\<open>modelPath\<close>, failures of the two lifecycle calls change nothing.\<close>

lemma failed_initialize_rest_unchanged:
  "leapLiquidAI_initialize path thrown app = (Inl error, app') \<Longrightarrow>
     app' = app\<lparr>leapLiquidAI := (leapLiquidAI app)\<lparr>modelPath := Some path\<rparr>\<rparr>"
  by (cases thrown; cases "the thrown")
     (auto simp: leapLiquidAI_initialize_def LeapSDK_loadModel_def native_loadModel_def
        awaited_result_def Let_def split: if_splits)

lemma failed_createConversation_unchanged:
  "leapLiquidAI_createConversation thrown app = (Inl error, app') \<Longrightarrow> app' = app"
  by (auto simp: leapLiquidAI_createConversation_def LeapSDK_createConversation_def
        native_createConversation_def awaited_result_def Let_def split: if_splits option.splits)

text \<open>
  C8. The claim: after any cleanup, failed or not, the local state is reset. Counterexample:
  when the native cleanup fails, \<^verbatim>\<open>cleanup\<close> rejects and the service is still initialized,
  with its conversation flag and model path.
\<close>

theorem failed_cleanup_counterexample:
  "fst (leapLiquidAI_cleanup (Some ''release failed'') example_ready)
     = Inl (Error ''Failed to cleanup: release failed'')
   \<and> leapLiquidAI (snd (leapLiquidAI_cleanup (Some ''release failed'') example_ready))
     = \<lparr>isInitialized = True, modelPath = Some ''/data/local/tmp/leap/model.bundle'',
        conversationCreated = True\<rparr>"
  by (simp add: leapLiquidAI_cleanup_def LeapSDK_cleanup_def native_cleanup_def removeAllListeners_def
      awaited_result_def Let_def example_ready_service)

text \<open>
  C8, amended. A cleanup whose native call succeeds resets the service (not initialized, no
  conversation, no model path), clears the native module's runner, conversation and job
  reference, and removes the listeners. A cleanup whose native call fails reports the error
  to the caller and leaves the service's three fields as they were: the service is not
  reset. The wrapper's listeners are removed in both cases.
\<close>

theorem cleanup_resets_only_on_success:
  "(leapLiquidAI_cleanup None app = (r, app') \<longrightarrow>
      r = Inr ()
      \<and> leapLiquidAI app' = \<lparr>isInitialized = False, modelPath = None, conversationCreated = False\<rparr>
      \<and> modelRunner (native app') = None \<and> currentConversation (native app') = None
      \<and> generationJob (native app') = None
      \<and> subscriptions (LeapSDK app') = [])
   \<and> (leapLiquidAI_cleanup (Some msg) app = (r, app') \<longrightarrow>
      r = Inl (Error (''Failed to cleanup: '' @ msg))
      \<and> leapLiquidAI app' = leapLiquidAI app
      \<and> subscriptions (LeapSDK app') = [])"
  by (auto simp: leapLiquidAI_cleanup_def LeapSDK_cleanup_def native_cleanup_def removeAllListeners_def
      awaited_result_def Let_def)

theorem cleanup_resets_only_on_success_witness:
  "fst (leapLiquidAI_cleanup None example_ready) = Inr ()
   \<and> leapLiquidAI (snd (leapLiquidAI_cleanup None example_ready))
       = \<lparr>isInitialized = False, modelPath = None, conversationCreated = False\<rparr>
   \<and> fst (leapLiquidAI_cleanup (Some ''release failed'') example_ready)
       = Inl (Error ''Failed to cleanup: release failed'')
   \<and> leapLiquidAI (snd (leapLiquidAI_cleanup (Some ''release failed'') example_ready))
       = leapLiquidAI example_ready"
  using cleanup_resets_only_on_success [where app = example_ready
      and r = "fst (leapLiquidAI_cleanup None example_ready)"
      and app' = "snd (leapLiquidAI_cleanup None example_ready)" and msg = "''release failed''"]
    cleanup_resets_only_on_success [where app = example_ready
      and r = "fst (leapLiquidAI_cleanup (Some ''release failed'') example_ready)"
      and app' = "snd (leapLiquidAI_cleanup (Some ''release failed'') example_ready)"
      and msg = "''release failed''"]
  by simp

text \<open>
  C10. The claim: getHistory always resolves with an empty array. Counterexample: on a
  service that is not initialized, \<^verbatim>\<open>getHistory\<close> rejects.
\<close>

theorem getHistory_counterexample:
  "leapLiquidAI_getHistory None (new_app 0)
     = Inl (Error ''Leap Liquid AI is not initialized. Call initialize() first.'')"
  by (simp add: leapLiquidAI_getHistory_def new_app_def)

text \<open>
  C10, amended. The native \<^verbatim>\<open>getHistory\<close> resolves with an empty array whenever reading the
  history does not throw, and without a conversation in any case; the service's
  \<^verbatim>\<open>getHistory\<close> resolves with an empty array when the service is initialized, and whenever
  it resolves at all the array is empty.
\<close>

theorem getHistory_never_populated:
  "native_getHistory None m = Resolve (JMessages [])
   \<and> (currentConversation m = None \<longrightarrow> native_getHistory thrown m = Resolve (JMessages []))
   \<and> (isInitialized (leapLiquidAI app) \<longrightarrow> leapLiquidAI_getHistory None app = Inr (JMessages []))
   \<and> (leapLiquidAI_getHistory thrown app = Inr v \<longrightarrow> v = JMessages [])"
  by (auto simp: native_getHistory_def leapLiquidAI_getHistory_def LeapSDK_getHistory_def
      awaited_result_def Let_def split: option.splits if_splits)

theorem getHistory_never_populated_witness:
  "native_getHistory None (native example_ready) = Resolve (JMessages [])
   \<and> native_getHistory (Some ''unreadable'') new_module = Resolve (JMessages [])
   \<and> leapLiquidAI_getHistory None example_ready = Inr (JMessages [])"
  using getHistory_never_populated [where m = "native example_ready" and app = example_ready]
    getHistory_never_populated [where m = new_module and thrown = "Some ''unreadable''"]
  by (simp add: example_ready_service new_module_def)


section \<open>Delivery of bridge calls to the screen\<close>

lemma deliver_native: "deliver c (app\<lparr>native := n\<rparr>) = (deliver c app)\<lparr>native := n\<rparr>"
proof (cases c)
  case (SendEvent ev)
  then show ?thesis by simp
next
  case (Settle p r)
  then show ?thesis
    by (cases "awaited_result r")
       (simp_all add: generateResponse_settled_def handleSend_resume_def removeAllListeners_def
          split: option.splits)
qed

lemma delivers_native: "delivers cs (app\<lparr>native := n\<rparr>) = (delivers cs app)\<lparr>native := n\<rparr>"
  unfolding delivers_def
  by (induction cs arbitrary: app) (simp_all add: deliver_native)

lemma native_deliver [simp]: "native (deliver c app) = native app"
proof (cases c)
  case (SendEvent ev)
  then show ?thesis by simp
next
  case (Settle p r)
  then show ?thesis
    by (cases "awaited_result r")
       (simp_all add: generateResponse_settled_def handleSend_resume_def removeAllListeners_def
          split: option.splits)
qed

lemma native_delivers [simp]: "native (delivers cs app) = native app"
  unfolding delivers_def
  by (induction cs arbitrary: app) simp_all

lemma delivers_append: "delivers (xs @ ys) app = delivers ys (delivers xs app)"
  by (simp add: delivers_def)

lemma delivers_Nil [simp]: "delivers [] app = app"
  by (simp add: delivers_def)

lemma delivers_Cons: "delivers (c # cs) app = delivers cs (deliver c app)"
  by (simp add: delivers_def)

lemma dispatches_run_job:
  "i < length (jobs (native app)) \<Longrightarrow>
     dispatches k i app =
       (delivers (fst (run_job k (jobs (native app) ! i))) app)
         \<lparr>native := (native app)\<lparr>jobs := (jobs (native app))[i := snd (run_job k (jobs (native app) ! i))]\<rparr>\<rparr>"
proof (induction k arbitrary: app)
  case 0
  then show ?case by simp
next
  case (Suc k)
  let ?j = "jobs (native app) ! i"
  obtain out j' where st: "job_step ?j = (out, j')" by (cases "job_step ?j")
  obtain outs j'' where rn: "run_job k j' = (outs, j'')" by (cases "run_job k j'")
  let ?n1 = "(native app)\<lparr>jobs := (jobs (native app))[i := j']\<rparr>"
  let ?app1 = "(delivers out app)\<lparr>native := ?n1\<rparr>"
  have d: "dispatch i app = ?app1"
    using Suc.prems st by (simp add: dispatch_def delivers_native)
  have len: "i < length (jobs (native ?app1))" using Suc.prems by simp
  have nth: "jobs (native ?app1) ! i = j'" using Suc.prems by simp
  have "dispatches (Suc k) i app = dispatches k i ?app1" using d by simp
  also have "\<dots> = (delivers outs ?app1)\<lparr>native := ?n1\<lparr>jobs := (jobs ?n1)[i := j'']\<rparr>\<rparr>"
    using Suc.IH [OF len] rn nth by simp
  also have "\<dots> = (delivers (out @ outs) app)\<lparr>native := (native app)\<lparr>jobs := (jobs (native app))[i := j'']\<rparr>\<rparr>"
    by (simp add: delivers_native delivers_append)
  finally show ?case using st rn by simp
qed

lemma chunk_events_append: "chunk_events (xs @ ys) = chunk_events xs @ chunk_events ys"
  by (induction xs rule: chunk_events.induct) simp_all

lemma onEach_action_eq:
  "onEach_action r rb = (map SendEvent (chunk_events [r]), rb @ content_of r)"
  by (cases r) (simp_all add: onEach_action_def)

lemma run_job_chunks:
  "status j = Active \<Longrightarrow> k \<le> length (upstream j) \<Longrightarrow>
     fst (run_job k j) = map SendEvent (chunk_events (take k (upstream j)))"
proof (induction k arbitrary: j)
  case 0
  then show ?case by simp
next
  case (Suc k)
  then obtain r rs where u: "upstream j = r # rs" by (cases "upstream j") auto
  let ?j' = "j\<lparr>upstream := rs, responseBuilder := responseBuilder j @ content_of r, started := True\<rparr>"
  have st: "job_step j = (map SendEvent (chunk_events [r]), ?j')"
    using Suc.prems u by (simp add: job_step_def onEach_action_eq)
  have "fst (run_job k ?j') = map SendEvent (chunk_events (take k (upstream ?j')))"
    using Suc.prems u by (intro Suc.IH) simp_all
  then have "fst (run_job (Suc k) j) = map SendEvent (chunk_events [r]) @ map SendEvent (chunk_events (take k rs))"
    using st by (simp add: split_def)
  also have "\<dots> = map SendEvent (chunk_events ([r] @ take k rs))"
    by (simp only: chunk_events_append map_append)
  finally show ?case using u by simp
qed

lemma collect_complete:
  "collect p rs None rb =
     map SendEvent (chunk_events rs)
       @ [SendEvent (CompleteEvent (rb @ concat (map content_of rs))),
          Settle p (Resolve (JText (rb @ concat (map content_of rs))))]"
proof (induction rs arbitrary: rb)
  case Nil
  show ?case by (simp add: onCompletion_action_def)
next
  case (Cons r rs)
  have "collect p (r # rs) None rb = map SendEvent (chunk_events [r]) @ collect p rs None (rb @ content_of r)"
    by (simp add: onEach_action_eq)
  also have "\<dots> = map SendEvent (chunk_events ([r] @ rs))
       @ [SendEvent (CompleteEvent (rb @ concat (map content_of (r # rs)))),
          Settle p (Resolve (JText (rb @ concat (map content_of (r # rs)))))]"
    by (simp only: Cons.IH chunk_events_append map_append) simp
  finally show ?case by simp
qed


lemma emit_listeners_of:
  "emit (ChunkEvent t ty) (listeners_of rid) c = setMessages_map rid (\<lambda>msg. text_msg msg @ t) c"
  "emit (CompleteEvent t) (listeners_of rid) c = setMessages_map rid (\<lambda>msg. t) c"
  "emit (ErrorEvent e) (listeners_of rid) c = setMessages_map rid (\<lambda>msg. ''Error: '' @ e) c"
  by (simp_all add: emit_def listeners_of_def)

lemma emit_no_listeners [simp]: "emit ev [] c = c"
  by (simp add: emit_def)

lemma setMessages_map_twice:
  "setMessages_map rid f (setMessages_map rid g c) = setMessages_map rid (\<lambda>msg. f (msg\<lparr>text_msg := g msg\<rparr>)) c"
  by (simp add: setMessages_map_def o_def cong: if_cong)

lemma setMessages_map_Nil: "setMessages_map rid text_msg c = c"
proof -
  have "map (\<lambda>msg. if id_msg msg = rid then msg\<lparr>text_msg := text_msg msg\<rparr> else msg) (messages c) = messages c"
    by (induction "messages c") (simp_all add: map_idI)
  then show ?thesis by (simp add: setMessages_map_def)
qed

text \<open>Delivering the chunk events of a response sequence to the listeners of one turn.\<close>

lemma delivers_chunk_events:
  "subscriptions (LeapSDK app) = listeners_of rid \<Longrightarrow>
     delivers (map SendEvent (chunk_events rs)) app
       = app\<lparr>chat := setMessages_map rid (\<lambda>msg. text_msg msg @ concat (map streamed_of rs)) (chat app)\<rparr>"
proof (induction rs arbitrary: app rule: chunk_events.induct)
  case 1
  then show ?case by (simp add: setMessages_map_Nil)
next
  case (2 t rs)
  let ?app1 = "app\<lparr>chat := setMessages_map rid (\<lambda>msg. text_msg msg @ t) (chat app)\<rparr>"
  have "subscriptions (LeapSDK ?app1) = listeners_of rid" using 2 by simp
  from "2.IH" [OF this] show ?case
    using "2.prems" by (simp add: delivers_Cons emit_listeners_of setMessages_map_twice)
next
  case (3 s rs)
  let ?app1 = "app\<lparr>chat := setMessages_map rid (\<lambda>msg. text_msg msg @ s) (chat app)\<rparr>"
  have "subscriptions (LeapSDK ?app1) = listeners_of rid" using 3 by simp
  from "3.IH" [OF this] show ?case
    using "3.prems" by (simp add: delivers_Cons emit_listeners_of setMessages_map_twice)
next
  case (4 rs)
  then show ?case by simp
qed

lemma delivers_no_listeners:
  "subscriptions (LeapSDK app) = [] \<Longrightarrow> delivers (map SendEvent evs) app = app"
  by (induction evs arbitrary: app) (simp_all add: delivers_Cons)

text \<open>The state in which \<^verbatim>\<open>handleSend\<close> leaves a screen that was ready to send.\<close>

lemma handleSend_ready:
  assumes "ready_to_send t1 t3 app"
  shows "chat (handleSend t1 t2 t3 t4 rs fault app)
           = (chat app)\<lparr>messages := messages (chat app)
                @ [\<lparr>id_msg = t1, text_msg = trim (inputText (chat app)), role = user, timestamp = t2\<rparr>,
                   \<lparr>id_msg = t3 + 1, text_msg = [], role = assistant, timestamp = t4\<rparr>],
              inputText := [], isLoading := True, currentResponseId := Some (t3 + 1)\<rparr>"
    and "subscriptions (LeapSDK (handleSend t1 t2 t3 t4 rs fault app)) = listeners_of (t3 + 1)"
    and "jobs (native (handleSend t1 t2 t3 t4 rs fault app))
           = cancel_generationJob (native app) @ [launch (promises app) (trim (inputText (chat app))) rs fault]"
  using assms
  by (auto simp: ready_to_send_def handleSend_def leapLiquidAI_sendMessage_def
      LeapSDK_generateResponse_def native_generateResponse_def addListener_def listeners_of_def
      Let_def)


lemma messages_deliver_Resolve:
  "messages (chat (deliver (Settle p (Resolve v)) app)) = messages (chat app)"
  by (simp add: generateResponse_settled_def handleSend_resume_def removeAllListeners_def
      awaited_result_def handleSend_finally_def split: option.splits)

lemma setMessages_map_fresh:
  assumes "messages c = old @ [u, a]"
    and "rid \<notin> id_msg ` set old" and "id_msg u \<noteq> rid" and "id_msg a = rid"
  shows "messages (setMessages_map rid f c) = old @ [u, a\<lparr>text_msg := f a\<rparr>]"
proof -
  have "map (\<lambda>msg. if id_msg msg = rid then msg\<lparr>text_msg := f msg\<rparr> else msg) old = old"
    using assms(2) by (intro map_idI) auto
  then show ?thesis using assms(1,3,4) by (simp add: setMessages_map_def)
qed

lemma turn_job:
  assumes "ready_to_send t1 t3 app"
  shows "length (jobs (native app)) < length (jobs (native (handleSend t1 t2 t3 t4 rs fault app)))"
    and "jobs (native (handleSend t1 t2 t3 t4 rs fault app)) ! length (jobs (native app))
           = launch (promises app) (trim (inputText (chat app))) rs fault"
  using handleSend_ready(3) [OF assms, of t2 t4 rs fault]
  by (simp_all add: nth_append)

lemma turn_placeholder:
  assumes "ready_to_send t1 t3 app"
  shows "messages (setMessages_map (t3 + 1) f (chat (handleSend t1 t2 t3 t4 rs fault app)))
           = messages (chat app)
             @ [\<lparr>id_msg = t1, text_msg = trim (inputText (chat app)), role = user, timestamp = t2\<rparr>,
                \<lparr>id_msg = t3 + 1, text_msg = f \<lparr>id_msg = t3 + 1, text_msg = [], role = assistant,
                  timestamp = t4\<rparr>, role = assistant, timestamp = t4\<rparr>]"
proof -
  have "messages (chat (handleSend t1 t2 t3 t4 rs fault app))
          = messages (chat app)
            @ [\<lparr>id_msg = t1, text_msg = trim (inputText (chat app)), role = user, timestamp = t2\<rparr>,
               \<lparr>id_msg = t3 + 1, text_msg = [], role = assistant, timestamp = t4\<rparr>]"
    by (simp add: handleSend_ready(1) [OF assms])
  from setMessages_map_fresh [OF this, of "t3 + 1" f] assms show ?thesis
    by (simp add: ready_to_send_def)
qed

lemma turn_streaming:
  assumes "ready_to_send t1 t3 app" and "k \<le> length rs"
  shows "messages (chat (dispatches k (length (jobs (native app))) (handleSend t1 t2 t3 t4 rs fault app)))
           = messages (chat app)
             @ [\<lparr>id_msg = t1, text_msg = trim (inputText (chat app)), role = user, timestamp = t2\<rparr>,
                \<lparr>id_msg = t3 + 1, text_msg = concat (map streamed_of (take k rs)), role = assistant,
                  timestamp = t4\<rparr>]"
proof -
  let ?app1 = "handleSend t1 t2 t3 t4 rs fault app"
  let ?job = "launch (promises app) (trim (inputText (chat app))) rs fault"
  have subs: "subscriptions (LeapSDK ?app1) = listeners_of (t3 + 1)"
    by (rule handleSend_ready(2) [OF assms(1)])
  have out: "fst (run_job k ?job) = map SendEvent (chunk_events (take k rs))"
    using run_job_chunks [of ?job k] assms(2) by (simp add: launch_def)
  have "chat (dispatches k (length (jobs (native app))) ?app1)
          = chat (delivers (map SendEvent (chunk_events (take k rs))) ?app1)"
    using dispatches_run_job [OF turn_job(1) [OF assms(1)], of k t2 t4 rs fault]
      turn_job(2) [OF assms(1), of t2 t4 rs fault] out
    by simp
  also have "\<dots> = setMessages_map (t3 + 1) (\<lambda>msg. text_msg msg @ concat (map streamed_of (take k rs))) (chat ?app1)"
    using delivers_chunk_events [OF subs, of "take k rs"] by simp
  finally have "messages (chat (dispatches k (length (jobs (native app))) ?app1))
      = messages (setMessages_map (t3 + 1) (\<lambda>msg. text_msg msg @ concat (map streamed_of (take k rs))) (chat ?app1))"
    by (rule arg_cong)
  also have "\<dots> = messages (chat app)
             @ [\<lparr>id_msg = t1, text_msg = trim (inputText (chat app)), role = user, timestamp = t2\<rparr>,
                \<lparr>id_msg = t3 + 1, text_msg = concat (map streamed_of (take k rs)), role = assistant,
                  timestamp = t4\<rparr>]"
    using turn_placeholder [OF assms(1), of "\<lambda>msg. text_msg msg @ concat (map streamed_of (take k rs))"]
    by simp
  finally show ?thesis .
qed

lemma turn_completed:
  assumes "ready_to_send t1 t3 app"
  shows "messages (chat (dispatches (Suc (length rs)) (length (jobs (native app)))
            (handleSend t1 t2 t3 t4 rs None app)))
           = messages (chat app)
             @ [\<lparr>id_msg = t1, text_msg = trim (inputText (chat app)), role = user, timestamp = t2\<rparr>,
                \<lparr>id_msg = t3 + 1, text_msg = concat (map content_of rs), role = assistant,
                  timestamp = t4\<rparr>]"
proof -
  let ?app1 = "handleSend t1 t2 t3 t4 rs None app"
  let ?p = "promises app"
  let ?job = "launch ?p (trim (inputText (chat app))) rs None"
  let ?full = "concat (map content_of rs)"
  let ?app2 = "delivers (map SendEvent (chunk_events rs)) ?app1"
  have subs: "subscriptions (LeapSDK ?app1) = listeners_of (t3 + 1)"
    by (rule handleSend_ready(2) [OF assms])
  have out: "fst (run_job (Suc (length rs)) ?job)
               = map SendEvent (chunk_events rs)
                 @ [SendEvent (CompleteEvent ?full), Settle ?p (Resolve (JText ?full))]"
    using run_job_collect [of ?job rs] by (simp add: launch_def collect_complete)
  have app2: "?app2 = ?app1\<lparr>chat := setMessages_map (t3 + 1)
                 (\<lambda>msg. text_msg msg @ concat (map streamed_of rs)) (chat ?app1)\<rparr>"
    by (rule delivers_chunk_events [OF subs])
  have "dispatches (Suc (length rs)) (length (jobs (native app))) ?app1
          = (delivers (fst (run_job (Suc (length rs)) ?job)) ?app1)
              \<lparr>native := (native ?app1)\<lparr>jobs := (jobs (native ?app1))
                 [length (jobs (native app)) := snd (run_job (Suc (length rs)) ?job)]\<rparr>\<rparr>"
    using dispatches_run_job [OF turn_job(1) [OF assms], of "Suc (length rs)" t2 t4 rs None]
    by (simp only: turn_job(2) [OF assms])
  then have "messages (chat (dispatches (Suc (length rs)) (length (jobs (native app))) ?app1))
          = messages (chat (delivers (map SendEvent (chunk_events rs)
                 @ [SendEvent (CompleteEvent ?full), Settle ?p (Resolve (JText ?full))]) ?app1))"
    by (simp only: out) simp
  also have "\<dots> = messages (chat (deliver (SendEvent (CompleteEvent ?full)) ?app2))"
    by (simp only: delivers_append delivers_Cons delivers_Nil messages_deliver_Resolve)
  also have "\<dots> = messages (setMessages_map (t3 + 1) (\<lambda>msg. ?full) (chat ?app1))"
    by (simp add: app2 subs emit_listeners_of setMessages_map_twice)
  also have "\<dots> = messages (chat app)
             @ [\<lparr>id_msg = t1, text_msg = trim (inputText (chat app)), role = user, timestamp = t2\<rparr>,
                \<lparr>id_msg = t3 + 1, text_msg = ?full, role = assistant, timestamp = t4\<rparr>]"
    using turn_placeholder [OF assms, of "\<lambda>msg. concat (map content_of rs)"]
    by simp
  finally show ?thesis .
qed

section \<open>A streamed turn\<close>

lemma streamed_events: "concat (map streamed_of rs) = concat (map event_text (chunk_events rs))"
  by (induction rs rule: chunk_events.induct) simp_all

lemma content_shorter: "length (concat (map content_of rs)) \<le> length (concat (map streamed_of rs))"
  by (induction rs rule: chunk_events.induct) simp_all

lemma started_app:
  "native (setInputText inp (initializeSDK now None None (new_app now0)))
     = \<lparr>modelRunner = Some ''/data/local/tmp/leap/model.bundle'',
        currentConversation = Some (Conversation ''/data/local/tmp/leap/model.bundle''),
        generationJob = None, jobs = []\<rparr>"
  "leapLiquidAI (setInputText inp (initializeSDK now None None (new_app now0)))
     = \<lparr>isInitialized = True, modelPath = Some ''/data/local/tmp/leap/model.bundle'',
        conversationCreated = True\<rparr>"
  "LeapSDK (setInputText inp (initializeSDK now None None (new_app now0))) = \<lparr>subscriptions = []\<rparr>"
  "chat (setInputText inp (initializeSDK now None None (new_app now0)))
     = \<lparr>messages = [\<lparr>id_msg = 1,
          text_msg = ''Hello! I'm your AI assistant powered by Leap Liquid AI. How can I help you today?'',
          role = assistant, timestamp = now\<rparr>],
        inputText = inp, isLoading = False, isInitialized_chat = True, isInitializing = False,
        currentResponseId = None\<rparr>"
  "promises (setInputText inp (initializeSDK now None None (new_app now0))) = 0"
  "awaited (setInputText inp (initializeSDK now None None (new_app now0))) = []"
  by (simp_all add: setInputText_def initializeSDK_def new_app_def new_chat_def
      leapLiquidAI_initialize_def LeapSDK_loadModel_def native_loadModel_def awaited_result_def
      leapLiquidAI_createConversation_def LeapSDK_createConversation_def
      native_createConversation_def new_module_def Let_def)

lemma started_app_ready:
  assumes "trim inp \<noteq> []" and "t3 \<noteq> 0" and "t3 + 1 \<noteq> t1"
  shows "ready_to_send t1 t3 (setInputText inp (initializeSDK now None None (new_app now0)))"
  using assms by (simp add: ready_to_send_def started_app)

text \<open>
  C1. The application starts (the model loads, the conversation is created), the user
  types a text that is not blank and sends it, and the generation completes after any
  sequence of responses \<open>rs\<close>. Provided the placeholder's id \<^verbatim>\<open>Date.now() + 1\<close> is neither
  the welcome message's id \<^verbatim>\<open>1\<close> nor the user message's id, the message log then holds
  the welcome message, the user message and exactly one assistant message for the turn,
  and its text is the text of the \<^verbatim>\<open>onComplete\<close> event, the full response, whatever the
  chunks had accumulated: the completion replaces the text.
\<close>

theorem completed_turn_shows_full_text:
  assumes "trim inp \<noteq> []" and "t3 \<noteq> 0" and "t3 + 1 \<noteq> t1"
  shows "messages (chat (dispatches (Suc (length rs)) 0
            (handleSend t1 t2 t3 t4 rs None
               (setInputText inp (initializeSDK now None None (new_app now0))))))
         = [\<lparr>id_msg = 1,
             text_msg = ''Hello! I'm your AI assistant powered by Leap Liquid AI. How can I help you today?'',
             role = assistant, timestamp = now\<rparr>,
            \<lparr>id_msg = t1, text_msg = trim inp, role = user, timestamp = t2\<rparr>,
            \<lparr>id_msg = t3 + 1, text_msg = concat (map content_of rs), role = assistant, timestamp = t4\<rparr>]
       \<and> fst (run_job (Suc (length rs)) (launch 0 (trim inp) rs None))
         = map SendEvent (chunk_events rs)
           @ [SendEvent (CompleteEvent (concat (map content_of rs))),
              Settle 0 (Resolve (JText (concat (map content_of rs))))]"
proof -
  let ?app = "setInputText inp (initializeSDK now None None (new_app now0))"
  have "fst (run_job (Suc (length rs)) (launch 0 (trim inp) rs None))
         = map SendEvent (chunk_events rs)
           @ [SendEvent (CompleteEvent (concat (map content_of rs))),
              Settle 0 (Resolve (JText (concat (map content_of rs))))]"
    using run_job_collect [of "launch 0 (trim inp) rs None" rs]
    by (simp add: launch_def collect_complete)
  moreover have "length (jobs (native ?app)) = 0" by (simp add: started_app)
  ultimately show ?thesis
    using turn_completed [OF started_app_ready [OF assms, of now now0],
        where ?t2.0 = t2 and ?t4.0 = t4 and rs = rs]
    by (simp add: started_app)
qed

theorem completed_turn_shows_full_text_witness:
  "trim ''Hi'' \<noteq> [] \<and> (11::nat) \<noteq> 0 \<and> (11::nat) + 1 \<noteq> 10
   \<and> messages (chat (dispatches 3 0
        (handleSend 10 10 11 11 [Chunk ''Hel'', Chunk ''lo''] None
           (setInputText ''Hi'' (initializeSDK 5 None None (new_app 3))))))
     = [\<lparr>id_msg = 1,
         text_msg = ''Hello! I'm your AI assistant powered by Leap Liquid AI. How can I help you today?'',
         role = assistant, timestamp = 5\<rparr>,
        \<lparr>id_msg = 10, text_msg = ''Hi'', role = user, timestamp = 10\<rparr>,
        \<lparr>id_msg = 12, text_msg = ''Hello'', role = assistant, timestamp = 11\<rparr>]"
proof -
  have t: "trim ''Hi'' = ''Hi''" by (simp add: trim_def is_space_def)
  have n: "Suc (length [Chunk ''Hel'', Chunk ''lo'']) = 3" by simp
  have p: "trim ''Hi'' \<noteq> []" "(11::nat) \<noteq> 0" "(11::nat) + 1 \<noteq> 10" by (simp_all add: t)
  from completed_turn_shows_full_text [OF p, where rs = "[Chunk ''Hel'', Chunk ''lo'']", unfolded n]
  show ?thesis
    using p by (simp add: t del: dispatches.simps run_job.simps)
qed

lemma example_ready_to_send: "ready_to_send 10 11 example_ready"
  using started_app_ready [where inp = "''Hi''" and ?t1.0 = 10 and ?t3.0 = 11 and now = 5 and ?now0.0 = 3]
  by (simp add: example_ready_def trim_def is_space_def)

text \<open>
  C2. For a turn started from a ready screen and not cancelled, and every \<open>k\<close> up to the
  number of responses: after \<open>k\<close> dispatches the coroutine has sent exactly the chunk
  events of the first \<open>k\<close> responses, in the producer's order, and the text of the turn's
  message is the concatenation of the texts of exactly these events in that order; the
  rest of the log is untouched. No chunk is reordered, dropped or appended twice.
\<close>

theorem chunks_appended_in_emission_order:
  assumes "ready_to_send t1 t3 app" and "k \<le> length rs"
  shows "fst (run_job k (launch (promises app) (trim (inputText (chat app))) rs fault))
           = map SendEvent (chunk_events (take k rs))
       \<and> messages (chat (dispatches k (length (jobs (native app)))
            (handleSend t1 t2 t3 t4 rs fault app)))
           = messages (chat app)
             @ [\<lparr>id_msg = t1, text_msg = trim (inputText (chat app)), role = user, timestamp = t2\<rparr>,
                \<lparr>id_msg = t3 + 1, text_msg = concat (map event_text (chunk_events (take k rs))),
                  role = assistant, timestamp = t4\<rparr>]"
proof -
  have "fst (run_job k (launch (promises app) (trim (inputText (chat app))) rs fault))
           = map SendEvent (chunk_events (take k rs))"
    using run_job_chunks [of "launch (promises app) (trim (inputText (chat app))) rs fault" k] assms(2)
    by (simp add: launch_def)
  then show ?thesis
    using turn_streaming [OF assms, where ?t2.0 = t2 and ?t4.0 = t4 and fault = fault]
    by (simp add: streamed_events)
qed

theorem chunks_appended_in_emission_order_witness:
  "ready_to_send 10 11 example_ready \<and> (2::nat) \<le> length [Chunk ''Hel'', ReasoningChunk ''R'', Chunk ''lo'']
   \<and> texts_of 12 (dispatches 2 0
        (handleSend 10 10 11 11 [Chunk ''Hel'', ReasoningChunk ''R'', Chunk ''lo''] None example_ready))
       = [''HelR'']"
proof -
  have j: "jobs (native example_ready) = []" and m: "filter (\<lambda>msg. id_msg msg = 12) (messages (chat example_ready)) = []"
    and i: "trim (inputText (chat example_ready)) = ''Hi''"
    by (simp_all add: example_ready_def started_app trim_def is_space_def)
  have k: "(2::nat) \<le> length [Chunk ''Hel'', ReasoningChunk ''R'', Chunk ''lo'']" by simp
  from chunks_appended_in_emission_order [OF example_ready_to_send k,
      where fault = None and ?t2.0 = 10 and ?t4.0 = 11]
  show ?thesis
    using j m i k by (simp add: example_ready_to_send texts_of_def del: dispatches.simps run_job.simps)
qed

text \<open>
  C9. For a turn started from a ready screen that completes: the \<^verbatim>\<open>onComplete\<close> event and
  the value the promise resolves with both carry the concatenation of the texts of the
  \<^verbatim>\<open>Chunk\<close> responses only; just before completion the message shows the concatenation of
  the texts of all chunk events, reasoning chunks included; at completion it is replaced
  by the full response, which is never longer and, as for \<^verbatim>\<open>Hel\<close>, a reasoning chunk,
  \<^verbatim>\<open>lo\<close>, can be shorter and different.
\<close>

theorem final_text_excludes_reasoning:
  assumes "ready_to_send t1 t3 app"
  shows "fst (run_job (Suc (length rs)) (launch (promises app) (trim (inputText (chat app))) rs None))
           = map SendEvent (chunk_events rs)
             @ [SendEvent (CompleteEvent (concat (map content_of rs))),
                Settle (promises app) (Resolve (JText (concat (map content_of rs))))]
       \<and> messages (chat (dispatches (length rs) (length (jobs (native app)))
            (handleSend t1 t2 t3 t4 rs None app)))
           = messages (chat app)
             @ [\<lparr>id_msg = t1, text_msg = trim (inputText (chat app)), role = user, timestamp = t2\<rparr>,
                \<lparr>id_msg = t3 + 1, text_msg = concat (map streamed_of rs), role = assistant,
                  timestamp = t4\<rparr>]
       \<and> messages (chat (dispatches (Suc (length rs)) (length (jobs (native app)))
            (handleSend t1 t2 t3 t4 rs None app)))
           = messages (chat app)
             @ [\<lparr>id_msg = t1, text_msg = trim (inputText (chat app)), role = user, timestamp = t2\<rparr>,
                \<lparr>id_msg = t3 + 1, text_msg = concat (map content_of rs), role = assistant,
                  timestamp = t4\<rparr>]
       \<and> length (concat (map content_of rs)) \<le> length (concat (map streamed_of rs))
       \<and> concat (map streamed_of [Chunk ''Hel'', ReasoningChunk ''R'', Chunk ''lo'']) = ''HelRlo''
       \<and> concat (map content_of [Chunk ''Hel'', ReasoningChunk ''R'', Chunk ''lo'']) = ''Hello''"
proof -
  have "fst (run_job (Suc (length rs)) (launch (promises app) (trim (inputText (chat app))) rs None))
           = map SendEvent (chunk_events rs)
             @ [SendEvent (CompleteEvent (concat (map content_of rs))),
                Settle (promises app) (Resolve (JText (concat (map content_of rs))))]"
    using run_job_collect [of "launch (promises app) (trim (inputText (chat app))) rs None" rs]
    by (simp add: launch_def collect_complete)
  moreover note turn_streaming [OF assms order_refl, where ?t2.0 = t2 and ?t4.0 = t4 and fault = None and rs = rs]
    turn_completed [OF assms, where ?t2.0 = t2 and ?t4.0 = t4 and rs = rs]
    content_shorter [of rs]
  ultimately show ?thesis by simp
qed

theorem final_text_excludes_reasoning_witness:
  "ready_to_send 10 11 example_ready
   \<and> texts_of 12 (dispatches 3 0
        (handleSend 10 10 11 11 [Chunk ''Hel'', ReasoningChunk ''R'', Chunk ''lo''] None example_ready))
       = [''HelRlo'']
   \<and> texts_of 12 (dispatches 4 0
        (handleSend 10 10 11 11 [Chunk ''Hel'', ReasoningChunk ''R'', Chunk ''lo''] None example_ready))
       = [''Hello'']"
proof -
  have j: "length (jobs (native example_ready)) = 0"
    and m: "filter (\<lambda>msg. id_msg msg = 12) (messages (chat example_ready)) = []"
    by (simp_all add: example_ready_def started_app)
  have n: "length [Chunk ''Hel'', ReasoningChunk ''R'', Chunk ''lo''] = 3"
    "Suc 3 = 4" by simp_all
  from final_text_excludes_reasoning [OF example_ready_to_send,
      where rs = "[Chunk ''Hel'', ReasoningChunk ''R'', Chunk ''lo'']" and ?t2.0 = 10 and ?t4.0 = 11,
      unfolded n j]
  show ?thesis
    using m by (simp add: example_ready_to_send texts_of_def del: dispatches.simps run_job.simps)
qed

section \<open>A generation fault\<close>

lemma observations_append:
  "observations (xs @ ys) app = observations xs app @ observations ys (delivers xs app)"
  by (induction xs arbitrary: app) (simp_all add: delivers_Cons)

lemma observations_chunk_events:
  "subscriptions (LeapSDK app) = listeners_of rid \<Longrightarrow>
     observations (map SendEvent (chunk_events rs)) app
       = map (Called (handleSend_onChunk rid)) (chunk_events rs)"
proof (induction rs arbitrary: app rule: chunk_events.induct)
  case 1
  then show ?case by simp
next
  case (2 t rs)
  have "subscriptions (LeapSDK (deliver (SendEvent (ChunkEvent t ''chunk'')) app)) = listeners_of rid"
    using 2 by simp
  from "2.IH" [OF this] show ?case using "2.prems" by (simp add: listeners_of_def)
next
  case (3 s rs)
  have "subscriptions (LeapSDK (deliver (SendEvent (ChunkEvent s ''reasoning'')) app)) = listeners_of rid"
    using 3 by simp
  from "3.IH" [OF this] show ?case using "3.prems" by (simp add: listeners_of_def)
next
  case (4 rs)
  then show ?case by simp
qed

lemma collect_fault:
  "collect p rs (Some msg) rb =
     map SendEvent (chunk_events rs)
       @ [SendEvent (ErrorEvent (''Error in generation: '' @ msg)),
          Settle p (Reject ''GENERATION_ERROR'' (''Error in generation: '' @ msg)),
          SendEvent (ErrorEvent (''Error in generation: '' @ msg)),
          Settle p (Reject ''GENERATION_ERROR'' (''Error in generation: '' @ msg))]"
proof (induction rs arbitrary: rb)
  case Nil
  show ?case by (simp add: onCompletion_action_def catch_action_def Let_def)
next
  case (Cons r rs)
  have "collect p (r # rs) (Some msg) rb
          = map SendEvent (chunk_events [r]) @ collect p rs (Some msg) (rb @ content_of r)"
    by (simp add: onEach_action_eq)
  also have "\<dots> = map SendEvent (chunk_events ([r] @ rs))
       @ [SendEvent (ErrorEvent (''Error in generation: '' @ msg)),
          Settle p (Reject ''GENERATION_ERROR'' (''Error in generation: '' @ msg)),
          SendEvent (ErrorEvent (''Error in generation: '' @ msg)),
          Settle p (Reject ''GENERATION_ERROR'' (''Error in generation: '' @ msg))]"
    by (simp only: Cons.IH chunk_events_append map_append) simp
  finally show ?case by simp
qed

lemma map_of_filter_other: "map_of (filter (\<lambda>(q, rid). q \<noteq> p) xs) p = None"
  by (induction xs) auto

lemma handleSend_awaited:
  assumes "ready_to_send t1 t3 app"
  shows "awaited (handleSend t1 t2 t3 t4 rs fault app) = awaited app @ [(promises app, t3 + 1)]"
  using assms
  by (auto simp: ready_to_send_def handleSend_def leapLiquidAI_sendMessage_def
      LeapSDK_generateResponse_def native_generateResponse_def Let_def)

text \<open>What a fault's four bridge calls make the listeners of a turn and its awaiting caller see.\<close>

lemma observations_fault_calls:
  assumes "subscriptions (LeapSDK app) = listeners_of rid" and "map_of (awaited app) p = Some rid"
  shows "observations [SendEvent (ErrorEvent e), Settle p (Reject code e),
                       SendEvent (ErrorEvent e), Settle p (Reject code e)] app
           = [Called (handleSend_onError rid) (ErrorEvent e), Resumed rid (Inl (Error e))]"
proof -
  let ?app1 = "deliver (SendEvent (ErrorEvent e)) app"
  let ?app2 = "deliver (Settle p (Reject code e)) ?app1"
  let ?app3 = "deliver (SendEvent (ErrorEvent e)) ?app2"
  have o1: "observe (SendEvent (ErrorEvent e)) app = [Called (handleSend_onError rid) (ErrorEvent e)]"
    using assms(1) by (simp add: listeners_of_def)
  have a1: "map_of (awaited ?app1) p = Some rid" using assms(2) by simp
  then have o2: "observe (Settle p (Reject code e)) ?app1 = [Resumed rid (Inl (Error e))]"
    by (simp add: awaited_result_def)
  have s2: "subscriptions (LeapSDK ?app2) = []"
    and a2: "map_of (awaited ?app2) p = None"
    using a1
    by (simp_all add: generateResponse_settled_def handleSend_resume_def removeAllListeners_def
        awaited_result_def map_of_filter_other)
  have o3: "observe (SendEvent (ErrorEvent e)) ?app2 = []" using s2 by simp
  have a3: "map_of (awaited ?app3) p = None" using a2 by simp
  then have o4: "observe (Settle p (Reject code e)) ?app3 = []" by simp
  show ?thesis
    by (simp only: observations.simps o1 o2 o3 o4 append_Nil append_Nil2 append_Cons)
qed

text \<open>
  C3. A turn is started from a ready screen and the SDK's flow throws after any sequence of
  responses. The coroutine sends the chunk events, then \<^verbatim>\<open>onError\<close> and a rejection from
  \<^verbatim>\<open>onCompletion\<close> and the same two again from \<^verbatim>\<open>catch\<close>. Of these, the listeners of the turn
  are called with the chunk events and with exactly one \<^verbatim>\<open>onError\<close> event, and the caller
  awaiting the promise is resumed exactly once, with the rejection: the first rejection
  removes the listeners and settles the promise, so the second \<^verbatim>\<open>onError\<close> reaches no
  listener and the second rejection resumes no one.
\<close>

theorem generation_fault_observed_once:
  assumes "ready_to_send t1 t3 app" and "map_of (awaited app) (promises app) = None"
  shows "fst (run_job (Suc (length rs))
            (jobs (native (handleSend t1 t2 t3 t4 rs (Some msg) app)) ! length (jobs (native app))))
           = map SendEvent (chunk_events rs)
             @ [SendEvent (ErrorEvent (''Error in generation: '' @ msg)),
                Settle (promises app) (Reject ''GENERATION_ERROR'' (''Error in generation: '' @ msg)),
                SendEvent (ErrorEvent (''Error in generation: '' @ msg)),
                Settle (promises app) (Reject ''GENERATION_ERROR'' (''Error in generation: '' @ msg))]
       \<and> observations
            (fst (run_job (Suc (length rs))
               (jobs (native (handleSend t1 t2 t3 t4 rs (Some msg) app)) ! length (jobs (native app)))))
            (handleSend t1 t2 t3 t4 rs (Some msg) app)
           = map (Called (handleSend_onChunk (t3 + 1))) (chunk_events rs)
             @ [Called (handleSend_onError (t3 + 1)) (ErrorEvent (''Error in generation: '' @ msg)),
                Resumed (t3 + 1) (Inl (Error (''Error in generation: '' @ msg)))]"
proof -
  let ?app1 = "handleSend t1 t2 t3 t4 rs (Some msg) app"
  let ?p = "promises app"
  let ?job = "launch ?p (trim (inputText (chat app))) rs (Some msg)"
  let ?e = "''Error in generation: '' @ msg"
  let ?tail = "[SendEvent (ErrorEvent ?e), Settle ?p (Reject ''GENERATION_ERROR'' ?e),
                SendEvent (ErrorEvent ?e), Settle ?p (Reject ''GENERATION_ERROR'' ?e)]"
  let ?app2 = "delivers (map SendEvent (chunk_events rs)) ?app1"
  have job: "jobs (native ?app1) ! length (jobs (native app)) = ?job"
    by (rule turn_job(2) [OF assms(1)])
  have out: "fst (run_job (Suc (length rs)) ?job) = map SendEvent (chunk_events rs) @ ?tail"
    using run_job_collect [of ?job rs] by (simp add: launch_def collect_fault)
  have subs: "subscriptions (LeapSDK ?app1) = listeners_of (t3 + 1)"
    by (rule handleSend_ready(2) [OF assms(1)])
  have app2: "?app2 = ?app1\<lparr>chat := setMessages_map (t3 + 1)
                 (\<lambda>msg. text_msg msg @ concat (map streamed_of rs)) (chat ?app1)\<rparr>"
    by (rule delivers_chunk_events [OF subs])
  have subs2: "subscriptions (LeapSDK ?app2) = listeners_of (t3 + 1)"
    by (simp add: app2 subs)
  have aw2: "map_of (awaited ?app2) ?p = Some (t3 + 1)"
    using assms(2) by (simp add: app2 handleSend_awaited [OF assms(1)] map_add_def)
  have "observations (map SendEvent (chunk_events rs) @ ?tail) ?app1
          = map (Called (handleSend_onChunk (t3 + 1))) (chunk_events rs)
            @ [Called (handleSend_onError (t3 + 1)) (ErrorEvent ?e), Resumed (t3 + 1) (Inl (Error ?e))]"
    by (simp only: observations_append observations_chunk_events [OF subs]
        observations_fault_calls [OF subs2 aw2])
  then show ?thesis by (simp only: job out)
qed

theorem generation_fault_observed_once_witness:
  "ready_to_send 10 11 example_ready
   \<and> map_of (awaited example_ready) (promises example_ready) = None
   \<and> observations
        [SendEvent (ChunkEvent ''Hel'' ''chunk''),
         SendEvent (ErrorEvent ''Error in generation: boom''),
         Settle 0 (Reject ''GENERATION_ERROR'' ''Error in generation: boom''),
         SendEvent (ErrorEvent ''Error in generation: boom''),
         Settle 0 (Reject ''GENERATION_ERROR'' ''Error in generation: boom'')]
        (handleSend 10 10 11 11 [Chunk ''Hel''] (Some ''boom'') example_ready)
       = [Called (handleSend_onChunk 12) (ChunkEvent ''Hel'' ''chunk''),
          Called (handleSend_onError 12) (ErrorEvent ''Error in generation: boom''),
          Resumed 12 (Inl (Error ''Error in generation: boom''))]"
proof -
  have aw: "map_of (awaited example_ready) (promises example_ready) = None"
    and p: "promises example_ready = 0"
    by (simp_all add: example_ready_def started_app)
  note th = generation_fault_observed_once [OF example_ready_to_send aw,
      where rs = "[Chunk ''Hel'']" and msg = "''boom''" and ?t2.0 = 10 and ?t4.0 = 11]
  have "observations
          (map SendEvent (chunk_events [Chunk ''Hel''])
             @ [SendEvent (ErrorEvent (''Error in generation: '' @ ''boom'')),
                Settle (promises example_ready) (Reject ''GENERATION_ERROR'' (''Error in generation: '' @ ''boom'')),
                SendEvent (ErrorEvent (''Error in generation: '' @ ''boom'')),
                Settle (promises example_ready) (Reject ''GENERATION_ERROR'' (''Error in generation: '' @ ''boom''))])
          (handleSend 10 10 11 11 [Chunk ''Hel''] (Some ''boom'') example_ready)
        = map (Called (handleSend_onChunk (11 + 1))) (chunk_events [Chunk ''Hel''])
             @ [Called (handleSend_onError (11 + 1)) (ErrorEvent (''Error in generation: '' @ ''boom'')),
                Resumed (11 + 1) (Inl (Error (''Error in generation: '' @ ''boom'')))]"
    by (rule th [THEN conjunct2, unfolded th [THEN conjunct1]])
  then show ?thesis
    using aw by (simp add: example_ready_to_send p del: observations.simps)
qed

section \<open>Cancellation\<close>

lemma example_streaming_state:
  "subscriptions (LeapSDK example_streaming) = listeners_of 12"
  "awaited example_streaming = [(0, 12)]"
  "jobs (native example_streaming)
     = [\<lparr>promise = 0, input = ''Hi'', upstream = [Chunk ''lo''], upstream_fault = None,
         responseBuilder = ''Hel'', started = True, status = Active\<rparr>]"
  "generationJob (native example_streaming) = Some 0"
  "messages (chat example_streaming)
     = [\<lparr>id_msg = 1,
         text_msg = ''Hello! I'm your AI assistant powered by Leap Liquid AI. How can I help you today?'',
         role = assistant, timestamp = 5\<rparr>,
        \<lparr>id_msg = 10, text_msg = ''Hi'', role = user, timestamp = 10\<rparr>,
        \<lparr>id_msg = 12, text_msg = ''Hel'', role = assistant, timestamp = 11\<rparr>]"
  by (simp_all add: example_streaming_def example_ready_def started_app handleSend_def
      trim_def is_space_def leapLiquidAI_sendMessage_def LeapSDK_generateResponse_def
      native_generateResponse_def cancel_generationJob_def addListener_def launch_def
      dispatch_def job_step_def onEach_action_def delivers_def emit_def setMessages_map_def
      listeners_of_def texts_of_def Let_def)

lemma cancel_generationJob_idle:
  assumes "filter in_flight (jobs m) = []"
  shows "cancel_generationJob m = jobs m"
proof (cases "generationJob m")
  case None
  then show ?thesis by (simp add: cancel_generationJob_def)
next
  case (Some g)
  show ?thesis
  proof (cases "g < length (jobs m)")
    case False
    with Some show ?thesis by (simp add: cancel_generationJob_def)
  next
    case True
    then have "jobs m ! g \<in> set (jobs m)" by simp
    with assms have "status (jobs m ! g) \<noteq> Active"
      by (auto simp: filter_empty_conv in_flight_def)
    then have "cancel_job (jobs m ! g) = jobs m ! g" by (rule cancel_job_keeps_inactive)
    with Some True show ?thesis by (simp add: cancel_generationJob_def)
  qed
qed

lemma deliver_keeps_no_listeners:
  assumes "subscriptions (LeapSDK app) = []"
  shows "subscriptions (LeapSDK (deliver c app)) = []"
proof (cases c)
  case (SendEvent ev)
  with assms show ?thesis by simp
next
  case (Settle p r)
  with assms show ?thesis
    by (cases "awaited_result r")
       (simp_all add: generateResponse_settled_def handleSend_resume_def removeAllListeners_def
          split: option.splits)
qed

lemma deliver_event_no_listeners:
  "subscriptions (LeapSDK app) = [] \<Longrightarrow> deliver (SendEvent ev) app = app"
  by simp

lemma events_dropped_without_listeners:
  "subscriptions (LeapSDK app) = [] \<Longrightarrow>
     delivers cs app = delivers (filter is_settlement cs) app
     \<and> observations cs app = observations (filter is_settlement cs) app"
proof (induction cs arbitrary: app)
  case Nil
  then show ?case by simp
next
  case (Cons c cs)
  show ?case
  proof (cases c)
    case (SendEvent ev)
    with Cons show ?thesis by (simp add: delivers_Cons)
  next
    case (Settle p r)
    have "subscriptions (LeapSDK (deliver c app)) = []"
      by (rule deliver_keeps_no_listeners [OF Cons.prems])
    from Cons.IH [OF this] Settle show ?thesis by (simp add: delivers_Cons)
  qed
qed

lemma cancelGeneration_listeners:
  "subscriptions (LeapSDK (snd (leapLiquidAI_cancelGeneration thrown app))) = []"
  "chat (snd (leapLiquidAI_cancelGeneration thrown app)) = chat app"
  by (cases thrown;
      simp add: leapLiquidAI_cancelGeneration_def LeapSDK_cancelGeneration_def
        native_cancelGeneration_def removeAllListeners_def awaited_result_def Let_def)+

lemma example_streaming_service:
  "leapLiquidAI example_streaming
     = \<lparr>isInitialized = True, modelPath = Some ''/data/local/tmp/leap/model.bundle'',
        conversationCreated = True\<rparr>"
  "currentConversation (native example_streaming)
     = Some (Conversation ''/data/local/tmp/leap/model.bundle'')"
  by (simp_all add: example_streaming_def example_ready_def started_app handleSend_def
      trim_def is_space_def leapLiquidAI_sendMessage_def LeapSDK_generateResponse_def
      native_generateResponse_def cancel_generationJob_def addListener_def launch_def
      dispatch_def job_step_def onEach_action_def delivers_def emit_def setMessages_map_def
      Let_def)

text \<open>
  C4. The claim: after cancelGeneration returns, no producer-side event delivered later
  changes the message log. Counterexample: a turn is cancelled after its first chunk and
  \<^verbatim>\<open>sendMessage\<close> is called again before the cancelled coroutine has finished; the
  \<^verbatim>\<open>onError\<close> event that coroutine then sends reaches the listeners registered by the new call
  and rewrites the message.
\<close>

theorem stale_event_after_resend_counterexample:
  "fst (exec (Dispatch 0) (native example_resent))
     = [SendEvent (ErrorEvent (''Error in generation: '' @ cancellation_message)),
        Settle 0 (Reject ''GENERATION_ERROR'' (''Error in generation: '' @ cancellation_message))]
   \<and> texts_of 12 example_resent = [''Hel'']
   \<and> texts_of 12 (deliver (SendEvent (ErrorEvent (''Error in generation: '' @ cancellation_message)))
        example_resent)
       = [''Error: Error in generation: '' @ cancellation_message]"
  by (simp add: example_resent_def example_cancelled_def leapLiquidAI_cancelGeneration_def
      LeapSDK_cancelGeneration_def native_cancelGeneration_def removeAllListeners_def
      awaited_result_def cancel_generationJob_def cancel_job_def example_streaming_state
      leapLiquidAI_sendMessage_def LeapSDK_generateResponse_def native_generateResponse_def
      addListener_def launch_def example_streaming_service
      job_step_def onCompletion_action_def emit_def setMessages_map_def texts_of_def Let_def)

lemma delivers_keeps_no_listeners:
  "subscriptions (LeapSDK app) = [] \<Longrightarrow> subscriptions (LeapSDK (delivers cs app)) = []"
  by (induction cs arbitrary: app) (simp_all add: delivers_Cons deliver_keeps_no_listeners)

lemma dispatch_keeps_no_listeners:
  assumes "subscriptions (LeapSDK app) = []"
  shows "subscriptions (LeapSDK (dispatch i app)) = []"
proof -
  obtain out n where e: "exec (Dispatch i) (native app) = (out, n)"
    by (cases "exec (Dispatch i) (native app)")
  have "subscriptions (LeapSDK (app\<lparr>native := n\<rparr>)) = []" using assms by simp
  from delivers_keeps_no_listeners [OF this, of out] show ?thesis
    using e by (simp add: dispatch_def del: exec.simps)
qed

lemma lifecycle_keeps_no_listeners:
  assumes "subscriptions (LeapSDK app) = []"
  shows "subscriptions (LeapSDK (snd (leapLiquidAI_initialize path lt app))) = []"
    and "subscriptions (LeapSDK (snd (leapLiquidAI_createConversation ct app))) = []"
    and "subscriptions (LeapSDK (snd (leapLiquidAI_cleanup clt app))) = []"
  using assms
  by (auto simp: leapLiquidAI_initialize_def LeapSDK_loadModel_def
      leapLiquidAI_createConversation_def LeapSDK_createConversation_def
      leapLiquidAI_cleanup_def LeapSDK_cleanup_def removeAllListeners_def
      split_def Let_def split: sum.splits)

text \<open>
  C4, amended. After \<^verbatim>\<open>cancelGeneration\<close>, whether or not the native call succeeded, no
  listener is registered and the screen is as before the call. Of the bridge calls
  delivered from then on, before a later \<^verbatim>\<open>generateResponse\<close> registers listeners again, every
  \<^verbatim>\<open>onChunk\<close>, \<^verbatim>\<open>onComplete\<close> and \<^verbatim>\<open>onError\<close> event is dropped: a sequence of events changes
  nothing, and a sequence of events and promise settlements has the effect, and is
  observed, as its settlements alone. In any state without listeners an event reaches no
  callback and changes nothing, and neither a bridge call, a coroutine dispatch,
  \<^verbatim>\<open>initialize\<close>, \<^verbatim>\<open>createConversation\<close> nor \<^verbatim>\<open>cleanup\<close> registers one. When no generation is
  in flight the call changes nothing but the listener list and the job reference, which
  it clears; when there is no listener and no job reference it changes nothing at all.
\<close>

theorem events_after_cancel_are_dropped:
  "subscriptions (LeapSDK (snd (leapLiquidAI_cancelGeneration thrown app))) = []
   \<and> chat (snd (leapLiquidAI_cancelGeneration thrown app)) = chat app
   \<and> delivers (map SendEvent evs) (snd (leapLiquidAI_cancelGeneration thrown app))
       = snd (leapLiquidAI_cancelGeneration thrown app)
   \<and> delivers cs (snd (leapLiquidAI_cancelGeneration thrown app))
       = delivers (filter is_settlement cs) (snd (leapLiquidAI_cancelGeneration thrown app))
   \<and> observations cs (snd (leapLiquidAI_cancelGeneration thrown app))
       = observations (filter is_settlement cs) (snd (leapLiquidAI_cancelGeneration thrown app))
   \<and> (subscriptions (LeapSDK later) = [] \<longrightarrow>
        deliver (SendEvent ev) later = later \<and> observe (SendEvent ev) later = []
        \<and> subscriptions (LeapSDK (deliver c later)) = []
        \<and> subscriptions (LeapSDK (dispatch i later)) = []
        \<and> subscriptions (LeapSDK (snd (leapLiquidAI_initialize path load_thrown later))) = []
        \<and> subscriptions (LeapSDK (snd (leapLiquidAI_createConversation conv_thrown later))) = []
        \<and> subscriptions (LeapSDK (snd (leapLiquidAI_cleanup cleanup_thrown later))) = [])
   \<and> (filter in_flight (jobs (native app)) = [] \<longrightarrow>
        leapLiquidAI_cancelGeneration None app
          = (Inr (), app\<lparr>LeapSDK := (LeapSDK app)\<lparr>subscriptions := []\<rparr>,
                         native := (native app)\<lparr>generationJob := None\<rparr>\<rparr>))
   \<and> (subscriptions (LeapSDK app) = [] \<and> generationJob (native app) = None \<longrightarrow>
        leapLiquidAI_cancelGeneration None app = (Inr (), app))"
proof -
  let ?app' = "snd (leapLiquidAI_cancelGeneration thrown app)"
  note s = cancelGeneration_listeners(1) [of thrown app]
  have "filter in_flight (jobs (native app)) = [] \<longrightarrow>
        leapLiquidAI_cancelGeneration None app
          = (Inr (), app\<lparr>LeapSDK := (LeapSDK app)\<lparr>subscriptions := []\<rparr>,
                         native := (native app)\<lparr>generationJob := None\<rparr>\<rparr>)"
    by (simp add: leapLiquidAI_cancelGeneration_def LeapSDK_cancelGeneration_def
          native_cancelGeneration_def removeAllListeners_def awaited_result_def Let_def
          cancel_generationJob_idle)
  moreover have "subscriptions (LeapSDK app) = [] \<and> generationJob (native app) = None \<longrightarrow>
        leapLiquidAI_cancelGeneration None app = (Inr (), app)"
    by (simp add: leapLiquidAI_cancelGeneration_def LeapSDK_cancelGeneration_def
          native_cancelGeneration_def removeAllListeners_def awaited_result_def Let_def
          cancel_generationJob_def)
  moreover have "subscriptions (LeapSDK later) = [] \<longrightarrow>
        deliver (SendEvent ev) later = later \<and> observe (SendEvent ev) later = []
        \<and> subscriptions (LeapSDK (deliver c later)) = []
        \<and> subscriptions (LeapSDK (dispatch i later)) = []
        \<and> subscriptions (LeapSDK (snd (leapLiquidAI_initialize path load_thrown later))) = []
        \<and> subscriptions (LeapSDK (snd (leapLiquidAI_createConversation conv_thrown later))) = []
        \<and> subscriptions (LeapSDK (snd (leapLiquidAI_cleanup cleanup_thrown later))) = []"
    by (simp add: deliver_keeps_no_listeners dispatch_keeps_no_listeners
        lifecycle_keeps_no_listeners)
  moreover note delivers_no_listeners [OF s, of evs] events_dropped_without_listeners [OF s, of cs]
    cancelGeneration_listeners [of thrown app]
  ultimately show ?thesis by (simp del: deliver.simps observe.simps)
qed

theorem events_after_cancel_are_dropped_witness:
  "texts_of 12 (delivers [SendEvent (ChunkEvent ''lo'' ''chunk''), SendEvent (CompleteEvent ''Hello''),
       SendEvent (ErrorEvent ''Error in generation: StandaloneCoroutine was cancelled'')]
     example_cancelled) = [''Hel'']
   \<and> filter in_flight (jobs (native example_ready)) = []
   \<and> subscriptions (LeapSDK example_ready) = [] \<and> generationJob (native example_ready) = None
   \<and> leapLiquidAI_cancelGeneration None example_ready = (Inr (), example_ready)"
  using events_after_cancel_are_dropped [where app = example_streaming and thrown = None
      and evs = "[ChunkEvent ''lo'' ''chunk'', CompleteEvent ''Hello'',
                  ErrorEvent ''Error in generation: StandaloneCoroutine was cancelled'']"]
    events_after_cancel_are_dropped [where app = example_ready]
  by (simp add: example_cancelled_def texts_of_def example_streaming_state example_ready_def
      started_app)

end
